theory Spec2Isabelle
  imports
    Complex_Main
    "HOL-Library.Char_ord"
    "HOL-Library.List_Lexorder"
    "HOL-Library.AList"
    "HOL-Library.Sublist"
begin

section \<open>Data model of \<open>ACTINN/Data_IO/CSV_IO.py\<close>\<close>

subsection \<open>Python exceptions\<close>

text \<open>
  The exceptions a call of the three functions can end with. \<open>IndexError\<close>,
  \<open>KeyError\<close>, \<open>AttributeError\<close>, \<open>TypeError\<close>, \<open>ValueError\<close> and
  \<open>InvalidIndexError\<close> are raised by Python, pandas and NumPy. \<open>MissingCommonFeatures\<close>
  and \<open>ZeroColumnSum\<close> are the two names of the specification's error taxonomy that concern
  \<open>scale_sets\<close>; the source has no \<open>raise\<close> statement, so no definition below produces them.
\<close>

datatype error =
    IndexError
  | KeyError
  | AttributeError
  | TypeError
  | ValueError
  | InvalidIndexError
  | MissingCommonFeatures
  | ZeroColumnSum

subsection \<open>Floating-point values\<close>

text \<open>
  A \<open>float32\<close> is a finite number, an infinity or NaN. Finite numbers are modelled by the
  reals: rounding, overflow to infinity and the sign of zero are not represented here
  (the rounding of line 77 is modelled apart, by \<open>round32\<close> below). The special values
  follow IEEE 754, which is what NumPy computes with (a division by zero is a warning and a
  NaN or an infinity, never an exception).
\<close>

datatype fl = Fin real | PInf | NInf | NaN

fun fneg :: "fl \<Rightarrow> fl" where
  "fneg (Fin a) = Fin (- a)"
| "fneg PInf = NInf"
| "fneg NInf = PInf"
| "fneg NaN = NaN"

fun fadd :: "fl \<Rightarrow> fl \<Rightarrow> fl" where
  "fadd NaN y = NaN"
| "fadd x NaN = NaN"
| "fadd (Fin a) (Fin b) = Fin (a + b)"
| "fadd PInf NInf = NaN"
| "fadd NInf PInf = NaN"
| "fadd PInf y = PInf"
| "fadd x PInf = PInf"
| "fadd NInf y = NInf"
| "fadd x NInf = NInf"

definition fsub :: "fl \<Rightarrow> fl \<Rightarrow> fl" where
  "fsub x y = fadd x (fneg y)"

definition inf_of_sign :: "real \<Rightarrow> fl" where
  "inf_of_sign s = (if s = 0 then NaN else if 0 < s then PInf else NInf)"

fun fmul :: "fl \<Rightarrow> fl \<Rightarrow> fl" where
  "fmul NaN y = NaN"
| "fmul x NaN = NaN"
| "fmul (Fin a) (Fin b) = Fin (a * b)"
| "fmul (Fin a) PInf = inf_of_sign a"
| "fmul (Fin a) NInf = inf_of_sign (- a)"
| "fmul PInf (Fin b) = inf_of_sign b"
| "fmul NInf (Fin b) = inf_of_sign (- b)"
| "fmul PInf PInf = PInf"
| "fmul NInf NInf = PInf"
| "fmul PInf NInf = NInf"
| "fmul NInf PInf = NInf"

fun fdiv :: "fl \<Rightarrow> fl \<Rightarrow> fl" where
  "fdiv NaN y = NaN"
| "fdiv x NaN = NaN"
| "fdiv (Fin a) (Fin b) = (if b = 0 then inf_of_sign a else Fin (a / b))"
| "fdiv (Fin a) PInf = Fin 0"
| "fdiv (Fin a) NInf = Fin 0"
| "fdiv PInf (Fin b) = (if 0 \<le> b then PInf else NInf)"
| "fdiv NInf (Fin b) = (if 0 \<le> b then NInf else PInf)"
| "fdiv PInf PInf = NaN"
| "fdiv PInf NInf = NaN"
| "fdiv NInf PInf = NaN"
| "fdiv NInf NInf = NaN"

fun flog2 :: "fl \<Rightarrow> fl" where
  "flog2 (Fin a) = (if 0 < a then Fin (log 2 a) else if a = 0 then NInf else NaN)"
| "flog2 PInf = PInf"
| "flog2 NInf = NaN"
| "flog2 NaN = NaN"

fun fsqrt :: "fl \<Rightarrow> fl" where
  "fsqrt (Fin a) = (if 0 \<le> a then Fin (sqrt a) else NaN)"
| "fsqrt PInf = PInf"
| "fsqrt NInf = NaN"
| "fsqrt NaN = NaN"

text \<open>Comparisons: every comparison with NaN is false.\<close>

fun fle :: "fl \<Rightarrow> fl \<Rightarrow> bool" where
  "fle NaN y = False"
| "fle x NaN = False"
| "fle (Fin a) (Fin b) = (a \<le> b)"
| "fle NInf y = True"
| "fle x PInf = True"
| "fle PInf y = False"
| "fle x NInf = False"

definition fge :: "fl \<Rightarrow> fl \<Rightarrow> bool" where
  "fge x y = fle y x"

definition fgt :: "fl \<Rightarrow> fl \<Rightarrow> bool" where
  "fgt x y = (fle y x \<and> \<not> fle x y)"

subsection \<open>Data frames, arrays and the heap\<close>

text \<open>
  A pandas \<open>DataFrame\<close> of genes by cells: the row labels, the column labels and the
  values, one list per row. A two-dimensional NumPy array keeps its number of columns also
  when it has no row (shape \<open>(0, k)\<close>).
\<close>

record frame =
  index :: "string list"
  columns :: "string list"
  vals :: "fl list list"

record ndarray =
  nd_ncols :: nat
  nd_rows :: "fl list list"

text \<open>
  Every \<open>DataFrame\<close> is rectangular. The pipeline's data model adds that the feature
  identifiers of one matrix are unique (\<open>CSV_IO\<close> removes duplicates before the call).
\<close>

definition valid_frame :: "frame \<Rightarrow> bool" where
  "valid_frame f \<longleftrightarrow>
     length (vals f) = length (index f) \<and>
     list_all (\<lambda>r. length r = length (columns f)) (vals f) \<and>
     distinct (index f)"

text \<open>
  \<open>scale_sets\<close> assigns to the slots of the list it is given, and the slots hold data
  frames first and arrays at the end. The heap maps the address of a list object to its
  content.
\<close>

datatype obj = DataFrame frame | NdArray ndarray

type_synonym addr = nat
type_synonym heap = "addr \<Rightarrow> obj list"

section \<open>The NumPy and pandas operations that \<open>scale_sets\<close> calls\<close>

text \<open>
  \<open>np.sum\<close> of a vector adds from zero; the sum of no element is zero. \<open>np.mean\<close> divides
  the sum by the number of elements, \<open>np.std\<close> (with its default \<open>ddof = 0\<close>) takes the
  square root of the mean of the squared deviations from the mean.
\<close>

definition np_sum :: "fl list \<Rightarrow> fl" where
  "np_sum xs = foldl fadd (Fin 0) xs"

definition np_mean :: "fl list \<Rightarrow> fl" where
  "np_mean xs = fdiv (np_sum xs) (Fin (real (length xs)))"

definition np_std :: "fl list \<Rightarrow> fl" where
  "np_std xs =
     (let arrmean = np_mean xs;
          x = map (\<lambda>v. fsub v arrmean) xs;
          x2 = map (\<lambda>d. fmul d d) x
      in fsqrt (fdiv (np_sum x2) (Fin (real (length xs)))))"

text \<open>
  \<open>np.percentile(a, q)\<close> with the default linear method. The virtual index of the
  percentile in the sorted data is \<open>(n - 1) * q / 100\<close>; the result interpolates between
  the two neighbouring order statistics. NumPy raises \<open>ValueError\<close> for \<open>q\<close> outside
  \<open>[0, 100]\<close> and \<open>IndexError\<close> for an empty array; a NaN anywhere in the data makes the
  result NaN. NumPy finds the two order statistics by a partial sort, which gives the
  values a full sort gives.
\<close>

fun insort_fl :: "fl \<Rightarrow> fl list \<Rightarrow> fl list" where
  "insort_fl x [] = [x]"
| "insort_fl x (y # ys) = (if fle x y then x # y # ys else y # insort_fl x ys)"

definition sort_fl :: "fl list \<Rightarrow> fl list" where
  "sort_fl xs = foldr insort_fl xs []"

definition lerp :: "fl \<Rightarrow> fl \<Rightarrow> real \<Rightarrow> fl" where
  "lerp a b t =
     (let diff_b_a = fsub b a
      in if 1 / 2 \<le> t then fsub b (fmul diff_b_a (Fin (1 - t)))
         else fadd a (fmul diff_b_a (Fin t)))"

definition np_percentile :: "fl list \<Rightarrow> real \<Rightarrow> error + fl" where
  "np_percentile a q =
     (if q < 0 \<or> 100 < q then Inl ValueError
      else if a = [] then Inl IndexError
      else if NaN \<in> set a then Inr NaN
      else
        let n = length a;
            arr = sort_fl a;
            virtual_index = real (n - 1) * (q / 100);
            previous_index = nat \<lfloor>virtual_index\<rfloor>;
            next_index = min (previous_index + 1) (n - 1);
            gamma = virtual_index - real previous_index
        in Inr (lerp (arr ! previous_index) (arr ! next_index) gamma))"

text \<open>
  \<open>a[mask,]\<close> with a Boolean mask keeps the rows whose mask entry is true;
  \<open>a[:, lo:hi]\<close> keeps the columns from \<open>lo\<close> up to \<open>hi\<close>, both clipped to the width.
\<close>

definition boolean_index :: "ndarray \<Rightarrow> bool list \<Rightarrow> ndarray" where
  "boolean_index a keep =
     \<lparr>nd_ncols = nd_ncols a, nd_rows = map snd (filter fst (zip keep (nd_rows a)))\<rparr>"

definition slice_cols :: "ndarray \<Rightarrow> nat \<Rightarrow> nat \<Rightarrow> ndarray" where
  "slice_cols a lo hi =
     \<lparr>nd_ncols = min hi (nd_ncols a) - min lo (nd_ncols a),
      nd_rows = map (\<lambda>r. take (hi - lo) (drop lo r)) (nd_rows a)\<rparr>"

text \<open>
  \<open>df.loc[labels,]\<close> selects the rows with the given labels, in the order of the labels
  (every row that carries the label, when the index repeats it), and raises \<open>KeyError\<close>
  when a label is not in the index.
\<close>

definition loc :: "frame \<Rightarrow> string list \<Rightarrow> error + frame" where
  "loc df labels =
     (if \<exists>l \<in> set labels. l \<notin> set (index df) then Inl KeyError
      else
        let picked = concat (map (\<lambda>l. filter (\<lambda>(g, r). g = l) (zip (index df) (vals df))) labels)
        in Inr \<lparr>index = map fst picked, columns = columns df, vals = map snd picked\<rparr>)"

text \<open>
  \<open>np.array(pd.concat(sets, axis=1, sort=False), dtype=np.float32)\<close>: the frames are put
  side by side. An element that is not a pandas object is a \<open>TypeError\<close>, an empty list a
  \<open>ValueError\<close>. Frames with one and the same index are joined row by row; otherwise pandas
  would reindex them, which in \<open>scale_sets\<close> can only happen when an index repeats a label,
  and then fails with \<open>InvalidIndexError\<close>.
\<close>

fun frame_of :: "obj \<Rightarrow> frame option" where
  "frame_of (DataFrame f) = Some f"
| "frame_of (NdArray a) = None"

fun frames_of :: "obj list \<Rightarrow> frame list option" where
  "frames_of [] = Some []"
| "frames_of (x # xs) =
     (case frame_of x of None \<Rightarrow> None
      | Some f \<Rightarrow> (case frames_of xs of None \<Rightarrow> None | Some fs \<Rightarrow> Some (f # fs)))"

definition pd_concat :: "obj list \<Rightarrow> error + ndarray" where
  "pd_concat objs =
     (case frames_of objs of
        None \<Rightarrow> Inl TypeError
      | Some [] \<Rightarrow> Inl ValueError
      | Some (f # fs) \<Rightarrow>
          if list_all (\<lambda>g. index g = index f) fs
          then Inr \<lparr>nd_ncols = sum_list (map (\<lambda>g. length (columns g)) (f # fs)),
                    nd_rows = map (\<lambda>k. concat (map (\<lambda>g. vals g ! k) (f # fs)))
                                  [0..<length (index f)]\<rparr>
          else Inl InvalidIndexError)"

section \<open>\<open>scale_sets\<close>\<close>

subsection \<open>Lines 67 to 75: the common genes and the alignment loop\<close>

text \<open>
  \<open>sets[0]\<close> raises \<open>IndexError\<close> on an empty list. The intersection is folded over the
  other frames, then sorted: Python compares strings lexicographically by code point, the
  order of \<open>string\<close> here.
\<close>

fun common_genes :: "frame list \<Rightarrow> error + string list" where
  "common_genes [] = Inl IndexError"
| "common_genes (s # ss) =
     Inr (sorted_list_of_set (fold (\<lambda>t common. set (index t) \<inter> common) ss (set (index s))))"

text \<open>
  The first loop overwrites slot \<open>i\<close> of the list with the aligned frame and appends the
  frame's number of columns to \<open>sep_point\<close>. It runs over the indices it is given and stops
  at the first exception, leaving the slots written so far as they are.
\<close>

fun align_loop ::
  "string list \<Rightarrow> nat list \<Rightarrow> obj list \<times> nat list \<Rightarrow> error option \<times> obj list \<times> nat list"
where
  "align_loop cg [] st = (None, st)"
| "align_loop cg (i # is) (objs, sep_point) =
     (case objs ! i of
        NdArray a \<Rightarrow> (Some AttributeError, objs, sep_point)
      | DataFrame f \<Rightarrow>
          (case loc f cg of
             Inl e \<Rightarrow> (Some e, objs, sep_point)
           | Inr f' \<Rightarrow>
               align_loop cg is (objs[i := DataFrame f'], sep_point @ [length (columns f')])))"

subsection \<open>Lines 76 to 90: normalisation and the two filters\<close>

definition col_sums :: "ndarray \<Rightarrow> fl list" where
  "col_sums a = map (\<lambda>j. np_sum (map (\<lambda>r. r ! j) (nd_rows a))) [0..<nd_ncols a]"

definition library_size_normalize :: "ndarray \<Rightarrow> ndarray" where
  "library_size_normalize a =
     (let s = col_sums a
      in a\<lparr>nd_rows := map (\<lambda>r. map2 (\<lambda>x c. fmul (fdiv x c) (Fin 20000)) r s) (nd_rows a)\<rparr>)"

definition log_transform :: "ndarray \<Rightarrow> ndarray" where
  "log_transform a = a\<lparr>nd_rows := map (map (\<lambda>x. flog2 (fadd x (Fin 1)))) (nd_rows a)\<rparr>"

definition expression_filter :: "ndarray \<Rightarrow> error + ndarray" where
  "expression_filter a =
     (let expr = map np_sum (nd_rows a)
      in case np_percentile expr 1 of
           Inl e \<Rightarrow> Inl e
         | Inr p1 \<Rightarrow>
             (case np_percentile expr 99 of
                Inl e \<Rightarrow> Inl e
              | Inr p99 \<Rightarrow> Inr (boolean_index a (map (\<lambda>x. fge x p1 \<and> fle x p99) expr))))"

definition zero_mean_filter :: "ndarray \<Rightarrow> ndarray" where
  "zero_mean_filter a =
     (let mean_expr = map np_mean (nd_rows a);
          non_zero_mean_mask = map (\<lambda>m. fgt m (Fin 0)) mean_expr
      in boolean_index a non_zero_mean_mask)"

definition coefficient_of_variation :: "ndarray \<Rightarrow> fl list" where
  "coefficient_of_variation a = map2 fdiv (map np_std (nd_rows a)) (map np_mean (nd_rows a))"

definition cv_filter :: "ndarray \<Rightarrow> error + ndarray" where
  "cv_filter a =
     (let cv = coefficient_of_variation a
      in case np_percentile cv 1 of
           Inl e \<Rightarrow> Inl e
         | Inr p1 \<Rightarrow>
             (case np_percentile cv 99 of
                Inl e \<Rightarrow> Inl e
              | Inr p99 \<Rightarrow> Inr (boolean_index a (map (\<lambda>x. fge x p1 \<and> fle x p99) cv))))"

definition filtered_total_set :: "obj list \<Rightarrow> error + ndarray" where
  "filtered_total_set objs =
     (case pd_concat objs of
        Inl e \<Rightarrow> Inl e
      | Inr total_set \<Rightarrow>
          (case expression_filter (log_transform (library_size_normalize total_set)) of
             Inl e \<Rightarrow> Inl e
           | Inr kept \<Rightarrow> cv_filter (zero_mean_filter kept)))"

subsection \<open>Line 77 with the rounding of \<open>float32\<close>\<close>





subsection \<open>Lines 92 to 94: the split loop and the function\<close>

definition split_loop :: "ndarray \<Rightarrow> nat list \<Rightarrow> obj list \<Rightarrow> obj list" where
  "split_loop total_set sep_point objs =
     fold (\<lambda>i s. s[i := NdArray (slice_cols total_set (sum_list (take (i + 1) sep_point))
                                                         (sum_list (take (i + 2) sep_point)))])
          [0..<length objs] objs"

text \<open>
  \<open>scale_sets sets h\<close>: the call with the list at address \<open>sets\<close> in the heap \<open>h\<close>. The
  result is the exception or the returned reference, and the heap the call leaves. The
  reads of \<open>.index\<close> in the first lines raise \<open>AttributeError\<close> on an element that is not a
  data frame, before any slot is written. The \<open>print\<close> calls are left out.
\<close>

definition scale_sets :: "addr \<Rightarrow> heap \<Rightarrow> (error + addr) \<times> heap" where
  "scale_sets sets h =
     (case frames_of (h sets) of
        None \<Rightarrow> (Inl AttributeError, h)
      | Some fs \<Rightarrow>
          (case common_genes fs of
             Inl e \<Rightarrow> (Inl e, h)
           | Inr cg \<Rightarrow>
               (case align_loop cg [0..<length (h sets)] (h sets, [0]) of
                  (Some e, objs, sep_point) \<Rightarrow> (Inl e, h(sets := objs))
                | (None, objs, sep_point) \<Rightarrow>
                    (case filtered_total_set objs of
                       Inl e \<Rightarrow> (Inl e, h(sets := objs))
                     | Inr total_set \<Rightarrow>
                         (Inr sets, h(sets := split_loop total_set sep_point objs))))))"

section \<open>The label codec\<close>

text \<open>
  A Python \<open>dict\<close> keeps its keys in insertion order: an association list in which an
  assignment to a present key replaces the value in place and an assignment to a new key
  appends. A lookup of a missing key raises \<open>KeyError\<close>.
\<close>

type_synonym ('k, 'v) dict = "('k \<times> 'v) list"

definition dict_get :: "('k, 'v) dict \<Rightarrow> 'k \<Rightarrow> error + 'v" where
  "dict_get d k = (case map_of d k of None \<Rightarrow> Inl KeyError | Some v \<Rightarrow> Inr v)"

text \<open>
  \<open>type2label_dict\<close>, lines 17 to 34. \<open>list(set(types))\<close> lists the distinct labels in the
  iteration order of a Python set, which the language leaves open; the order is the
  parameter \<open>list_of_set\<close>, and \<open>set_listing\<close> says what Python guarantees of it.
\<close>

definition set_listing :: "('a set \<Rightarrow> 'a list) \<Rightarrow> 'a set \<Rightarrow> bool" where
  "set_listing list_of_set S \<longleftrightarrow> set (list_of_set S) = S \<and> distinct (list_of_set S)"

definition type2label_dict :: "(string set \<Rightarrow> string list) \<Rightarrow> string list \<Rightarrow> (string, int) dict" where
  "type2label_dict list_of_set types =
     (let all_celltype = list_of_set (set types)
      in fold (\<lambda>i celltype_to_label_dict. AList.update (all_celltype ! i) (int i) celltype_to_label_dict)
              [0..<length all_celltype] [])"

text \<open>\<open>convert_type2label\<close>, lines 36 to 53: the loop appends one code per label.\<close>

fun convert_loop :: "string list \<Rightarrow> (string, int) dict \<Rightarrow> int list \<Rightarrow> error + int list" where
  "convert_loop [] d labels = Inr labels"
| "convert_loop (t # ts) d labels =
     (case dict_get d t of
        Inl e \<Rightarrow> Inl e
      | Inr l \<Rightarrow> convert_loop ts d (labels @ [l]))"

definition convert_type2label :: "string list \<Rightarrow> (string, int) dict \<Rightarrow> error + int list" where
  "convert_type2label types type_to_label_dict = convert_loop types type_to_label_dict []"

text \<open>
  In \<open>CSV_IO\<close>, line 148 inverts the dictionary with
  \<open>{v: k for k, v in type_to_label_dict.items()}\<close> and line 177 returns
  \<open>len(type_to_label_dict.keys())\<close> as the number of classes.
\<close>

definition label_to_type_dict :: "(string, int) dict \<Rightarrow> (int, string) dict" where
  "label_to_type_dict type_to_label_dict =
     fold (\<lambda>(k, v) d. AList.update v k d) type_to_label_dict []"

definition num_classes :: "(string, int) dict \<Rightarrow> nat" where
  "num_classes type_to_label_dict = length (map fst type_to_label_dict)"

section \<open>Notions used to state the properties\<close>

text \<open>
  An array is rectangular when every row has as many entries as the array has columns.
\<close>

definition rectangular :: "ndarray \<Rightarrow> bool" where
  "rectangular a \<longleftrightarrow> list_all (\<lambda>r. length r = nd_ncols a) (nd_rows a)"

text \<open>The row of a frame that carries a given label.\<close>

definition row_of :: "frame \<Rightarrow> string \<Rightarrow> fl list" where
  "row_of f g = the (map_of (zip (index f) (vals f)) g)"

text \<open>
  The content of the list after the first loop, for a list of frames: every frame replaced
  by what \<open>.loc[common_genes,]\<close> returns.
\<close>

definition aligned_sets :: "frame list \<Rightarrow> obj list" where
  "aligned_sets fs =
     (case common_genes fs of
        Inl e \<Rightarrow> []
      | Inr cg \<Rightarrow> map (\<lambda>f. case loc f cg of Inl e \<Rightarrow> DataFrame f | Inr f' \<Rightarrow> DataFrame f') fs)"

text \<open>
  The rows that reach the coefficient-of-variation step (line 89): the rows of the combined
  matrix that pass the expression filter and the zero-mean exclusion. There is none when an
  earlier step has failed.
\<close>

definition rows_entering_cv :: "frame list \<Rightarrow> fl list list" where
  "rows_entering_cv fs =
     (case pd_concat (aligned_sets fs) of
        Inl e \<Rightarrow> []
      | Inr total_set \<Rightarrow>
          (case expression_filter (log_transform (library_size_normalize total_set)) of
             Inl e \<Rightarrow> []
           | Inr kept \<Rightarrow> nd_rows (zero_mean_filter kept)))"


section \<open>Example inputs\<close>

text \<open>
  The heap in which no list has been stored, and small pairs of matrices on which the
  functions are evaluated: a pair whose only rows to pass the expression filter are all zero,
  a pair with one common gene, a pair with no common gene, the pair of the specification's
  scenario (features A, B, C, D and B, C, D, E), and a pair in which one cell has no
  expression at all.
\<close>

definition empty_heap :: heap where "empty_heap = (\<lambda>a. [])"

definition sparse_a :: frame where
  "sparse_a = \<lparr>index = [''A'', ''B'', ''C''], columns = [''c1''], vals = [[Fin 0], [Fin 0], [Fin 1]]\<rparr>"

definition sparse_b :: frame where
  "sparse_b = \<lparr>index = [''C'', ''B'', ''A''], columns = [''d1''], vals = [[Fin 1], [Fin 0], [Fin 0]]\<rparr>"

definition overlap_a :: frame where
  "overlap_a = \<lparr>index = [''A'', ''B''], columns = [''c1'', ''c2''], vals = [[Fin 5, Fin 0], [Fin 1, Fin 3]]\<rparr>"

definition overlap_b :: frame where
  "overlap_b = \<lparr>index = [''B'', ''C''], columns = [''d1''], vals = [[Fin 2], [Fin 7]]\<rparr>"

definition disjoint_a :: frame where
  "disjoint_a = \<lparr>index = [''A'', ''B''], columns = [''c1''], vals = [[Fin 1], [Fin 2]]\<rparr>"

definition disjoint_b :: frame where
  "disjoint_b = \<lparr>index = [''C'', ''D''], columns = [''d1'', ''d2''], vals = [[Fin 3, Fin 4], [Fin 5, Fin 6]]\<rparr>"

definition scenario_a :: frame where
  "scenario_a = \<lparr>index = [''D'', ''A'', ''C'', ''B''], columns = [''c1'', ''c2''],
     vals = [[Fin 4, Fin 40], [Fin 1, Fin 10], [Fin 3, Fin 30], [Fin 2, Fin 20]]\<rparr>"

definition scenario_b :: frame where
  "scenario_b = \<lparr>index = [''B'', ''E'', ''D'', ''C''], columns = [''d1''],
     vals = [[Fin 200], [Fin 500], [Fin 400], [Fin 300]]\<rparr>"

definition blank_a :: frame where
  "blank_a = \<lparr>index = [''A'', ''B''], columns = [''c1'', ''c2''], vals = [[Fin 3, Fin 0], [Fin 1, Fin 0]]\<rparr>"

definition blank_b :: frame where
  "blank_b = \<lparr>index = [''B'', ''A''], columns = [''d1''], vals = [[Fin 2], [Fin 6]]\<rparr>"




section \<open>Properties of the label codec\<close>

lemma convert_loop_eq:
  "convert_loop ts d acc =
     (if set ts \<subseteq> fst ` set d then Inr (acc @ map (\<lambda>t. the (map_of d t)) ts) else Inl KeyError)"
proof (induction ts arbitrary: acc)
  case Nil
  then show ?case by simp
next
  case (Cons t ts)
  show ?case
  proof (cases "map_of d t")
    case None
    then have "t \<notin> fst ` set d" by (simp add: map_of_eq_None_iff)
    with None show ?thesis by (simp add: dict_get_def)
  next
    case (Some l)
    then have "t \<in> fst ` set d" by (auto dest: map_of_SomeD intro: rev_image_eqI)
    with Some Cons.IH show ?thesis by (simp add: dict_get_def)
  qed
qed

lemma update_fresh: "k \<notin> fst ` set al \<Longrightarrow> AList.update k v al = al @ [(k, v)]"
  by (induction al) auto

lemma assign_codes_take:
  assumes "distinct xs" "k \<le> length xs"
  shows "fold (\<lambda>i d. AList.update (xs ! i) (int i) d) [0..<k] [] = zip (take k xs) (map int [0..<k])"
  using assms(2)
proof (induction k)
  case 0
  then show ?case by simp
next
  case (Suc k)
  then have k: "k < length xs" by simp
  have fresh: "xs ! k \<notin> fst ` set (zip (take k xs) (map int [0..<k]))"
  proof
    assume "xs ! k \<in> fst ` set (zip (take k xs) (map int [0..<k]))"
    then have "xs ! k \<in> set (take k xs)" by (auto dest: set_zip_leftD)
    then obtain j where "j < k" "xs ! j = xs ! k"
      using k by (auto simp: in_set_conv_nth)
    with assms(1) k show False by (simp add: nth_eq_iff_index_eq)
  qed
  have "take (Suc k) xs = take k xs @ [xs ! k]" using k by (simp add: take_Suc_conv_app_nth)
  with Suc fresh k show ?case by (simp add: update_fresh)
qed

lemma type2label_dict_zip:
  assumes "set_listing lo (set types)"
  shows "type2label_dict lo types = zip (lo (set types)) (map int [0..<length (lo (set types))])"
  using assms assign_codes_take[of "lo (set types)" "length (lo (set types))"]
  by (simp add: type2label_dict_def set_listing_def Let_def)

lemma invert_take:
  assumes "distinct (map snd al)" "fst ` set acc \<inter> snd ` set al = {}"
  shows "fold (\<lambda>(k, v) d. AList.update v k d) al acc = acc @ map (\<lambda>(k, v). (v, k)) al"
  using assms
proof (induction al arbitrary: acc)
  case Nil
  then show ?case by simp
next
  case (Cons p al)
  obtain k v where p: "p = (k, v)" by (cases p)
  have "v \<notin> fst ` set acc" using Cons.prems p by auto
  then have u: "AList.update v k acc = acc @ [(v, k)]" by (rule update_fresh)
  have "fst ` set (acc @ [(v, k)]) \<inter> snd ` set al = {}"
    using Cons.prems p by auto
  with Cons.IH[of "acc @ [(v, k)]"] Cons.prems p u show ?case by simp
qed


lemma label_to_type_dict_swap:
  assumes "distinct (map snd d)"
  shows "label_to_type_dict d = map (\<lambda>(k, v). (v, k)) d"
  using invert_take[of d "[]"] assms by (simp add: label_to_type_dict_def)

lemma set_listing_sorted_list_of_set: "set_listing sorted_list_of_set (set (xs::string list))"
  by (simp add: set_listing_def)

lemma map_of_zip_nth:
  "length xs = length ys \<Longrightarrow> distinct xs \<Longrightarrow> i < length ys \<Longrightarrow>
   map_of (zip xs ys) (xs ! i) = Some (ys ! i)"
proof (induction xs ys arbitrary: i rule: list_induct2)
  case Nil
  then show ?case by simp
next
  case (Cons x xs y ys)
  then show ?case by (cases i) auto
qed

text \<open>
  C8. For every sequence of labels and every dictionary, \<open>convert_type2label\<close> returns the
  codes that the dictionary gives the labels, in order, when every label is a key, and
  raises \<open>KeyError\<close> otherwise: exactly when some label is not a key. The keys of the
  dictionary that \<open>type2label_dict\<close> builds are the labels it was built from, so a label is
  missing exactly when it was not seen at construction.
\<close>

theorem convert_type2label_lookup:
  "convert_type2label types d =
     (if set types \<subseteq> fst ` set d then Inr (map (\<lambda>t. the (map_of d t)) types) else Inl KeyError)
   \<and> (set_listing list_of_set (set train) \<longrightarrow>
        fst ` set (type2label_dict list_of_set train) = set train)"
proof
  show "convert_type2label types d =
     (if set types \<subseteq> fst ` set d then Inr (map (\<lambda>t. the (map_of d t)) types) else Inl KeyError)"
    by (simp add: convert_type2label_def convert_loop_eq)
next
  show "set_listing list_of_set (set train) \<longrightarrow>
        fst ` set (type2label_dict list_of_set train) = set train"
  proof
    assume a: "set_listing list_of_set (set train)"
    have "map fst (zip (list_of_set (set train)) (map int [0..<length (list_of_set (set train))]))
           = list_of_set (set train)"
      by simp
    then have "fst ` set (type2label_dict list_of_set train) = set (list_of_set (set train))"
      unfolding type2label_dict_zip[OF a] by (metis set_map)
    with a show "fst ` set (type2label_dict list_of_set train) = set train"
      by (simp add: set_listing_def)
  qed
qed

theorem convert_type2label_lookup_witness:
  "set_listing sorted_list_of_set (set [''B'', ''T'', ''B''])
   \<and> convert_type2label [''T'', ''B'', ''T''] (type2label_dict sorted_list_of_set [''B'', ''T'', ''B'']) = Inr [1, 0, 1]
   \<and> convert_type2label [''T'', ''NK''] (type2label_dict sorted_list_of_set [''B'', ''T'', ''B'']) = Inl KeyError"
proof -
  have d: "type2label_dict sorted_list_of_set [''B'', ''T'', ''B''] = [(''B'', 0), (''T'', 1)]"
    by code_simp
  have s: "set_listing sorted_list_of_set (set [''B'', ''T'', ''B''])"
    by (rule set_listing_sorted_list_of_set)
  show ?thesis
    using convert_type2label_lookup[of "[''T'', ''B'', ''T'']" "type2label_dict sorted_list_of_set [''B'', ''T'', ''B'']" sorted_list_of_set "[''B'', ''T'', ''B'']"]
      convert_type2label_lookup[of "[''T'', ''NK'']" "type2label_dict sorted_list_of_set [''B'', ''T'', ''B'']" sorted_list_of_set "[''B'', ''T'', ''B'']"]
      s
    by (simp add: d)
qed

text \<open>
  C9. For every sequence of training labels, whatever order the set iteration gives: each
  label \<open>s\<close> seen at construction has a code \<open>c\<close> in \<open>[0, num_classes)\<close> and the inverted
  dictionary maps \<open>c\<close> back to \<open>s\<close>; every entry of the inverted dictionary is the reverse of
  an entry of the dictionary; and \<open>num_classes\<close> is the number of distinct training labels.
\<close>

theorem label_codec_inverse:
  assumes "set_listing list_of_set (set types)"
  shows "(\<forall>s \<in> set types. \<exists>c.
            map_of (type2label_dict list_of_set types) s = Some c
          \<and> 0 \<le> c \<and> c < int (num_classes (type2label_dict list_of_set types))
          \<and> map_of (label_to_type_dict (type2label_dict list_of_set types)) c = Some s)
       \<and> (\<forall>c s. map_of (label_to_type_dict (type2label_dict list_of_set types)) c = Some s
             \<longrightarrow> map_of (type2label_dict list_of_set types) s = Some c)
       \<and> num_classes (type2label_dict list_of_set types) = card (set types)"
proof -
  define xs where "xs = list_of_set (set types)"
  define n where "n = length xs"
  define cs where "cs = map int [0..<n]"
  have xs: "set xs = set types" "distinct xs"
    using assms by (simp_all add: set_listing_def xs_def)
  have len: "length xs = length cs" by (simp add: cs_def n_def)
  have dcs: "distinct cs" by (simp add: cs_def distinct_map inj_on_def)
  have d: "type2label_dict list_of_set types = zip xs cs"
    using type2label_dict_zip[OF assms] by (simp add: xs_def n_def cs_def)
  have "distinct (map snd (zip xs cs))" using len dcs by simp
  then have "label_to_type_dict (zip xs cs) = map (\<lambda>(k, v). (v, k)) (zip xs cs)"
    by (rule label_to_type_dict_swap)
  also have "\<dots> = zip cs xs"
    using len by (induction xs cs rule: list_induct2) auto
  finally have inv: "label_to_type_dict (type2label_dict list_of_set types) = zip cs xs"
    by (simp add: d)
  have nc: "num_classes (type2label_dict list_of_set types) = n"
    using len by (simp add: num_classes_def d n_def)
  have fwd: "\<exists>c. map_of (zip xs cs) s = Some c \<and> 0 \<le> c \<and> c < int n \<and> map_of (zip cs xs) c = Some s"
    if "s \<in> set types" for s
  proof -
    from that xs have "s \<in> set xs" by simp
    then obtain i where i: "i < n" "xs ! i = s"
      unfolding n_def in_set_conv_nth by blast
    have ci: "cs ! i = int i" using i by (simp add: cs_def)
    have "map_of (zip xs cs) (xs ! i) = Some (cs ! i)"
      using len xs(2) i(1) by (intro map_of_zip_nth) (simp_all add: n_def)
    moreover have "map_of (zip cs xs) (cs ! i) = Some (xs ! i)"
      using len dcs i(1) by (intro map_of_zip_nth) (simp_all add: n_def)
    ultimately show ?thesis using i ci by auto
  qed
  have bwd: "map_of (zip xs cs) s = Some c" if "map_of (zip cs xs) c = Some s" for c s
  proof -
    from that have "(c, s) \<in> set (zip cs xs)" by (rule map_of_SomeD)
    then obtain i where i: "i < n" "cs ! i = c" "xs ! i = s"
      using len by (auto simp: set_zip n_def)
    have "map_of (zip xs cs) (xs ! i) = Some (cs ! i)"
      using len xs(2) i(1) by (intro map_of_zip_nth) (simp_all add: n_def)
    with i show ?thesis by simp
  qed
  have "card (set types) = n"
    using xs by (metis distinct_card n_def)
  with fwd bwd show ?thesis
    unfolding inv nc unfolding d by simp
qed

theorem label_codec_inverse_witness:
  "set_listing sorted_list_of_set (set [''T'', ''B'', ''T''])
   \<and> type2label_dict sorted_list_of_set [''T'', ''B'', ''T''] = [(''B'', 0), (''T'', 1)]
   \<and> label_to_type_dict (type2label_dict sorted_list_of_set [''T'', ''B'', ''T'']) = [(0, ''B''), (1, ''T'')]
   \<and> num_classes (type2label_dict sorted_list_of_set [''T'', ''B'', ''T'']) = card (set [''T'', ''B'', ''T''])"
proof -
  have s: "set_listing sorted_list_of_set (set [''T'', ''B'', ''T''])"
    by (rule set_listing_sorted_list_of_set)
  have d: "type2label_dict sorted_list_of_set [''T'', ''B'', ''T''] = [(''B'', 0), (''T'', 1)]"
    by code_simp
  have i: "label_to_type_dict [(''B'', 0), (''T'', 1)] = [(0, ''B''), (1, ''T'')]"
    by (simp add: label_to_type_dict_def)
  from label_codec_inverse[OF s] have "num_classes (type2label_dict sorted_list_of_set [''T'', ''B'', ''T'']) = card (set [''T'', ''B'', ''T''])"
    by blast
  with s d i show ?thesis by simp
qed

section \<open>Properties of \<open>scale_sets\<close>\<close>

subsection \<open>The common genes and the two loops\<close>

lemma frames_of_map: "frames_of (map DataFrame fs) = Some fs"
  by (induction fs) auto

lemma fold_inter_index:
  "fold (\<lambda>t common. set (index t) \<inter> common) ss S = S \<inter> (\<Inter>t \<in> set ss. set (index t))"
  by (induction ss arbitrary: S) auto

lemma common_genes_Inr:
  assumes "fs \<noteq> []"
  shows "common_genes fs = Inr (sorted_list_of_set (\<Inter>f \<in> set fs. set (index f)))"
proof -
  obtain s ss where fs: "fs = s # ss" using assms by (cases fs) auto
  have "set (index s) \<inter> (\<Inter>t \<in> set ss. set (index t)) = (\<Inter>f \<in> set (s # ss). set (index f))"
    by auto
  then show ?thesis by (simp add: fs fold_inter_index)
qed

lemma finite_common: "fs \<noteq> [] \<Longrightarrow> finite (\<Inter>f \<in> set fs. set (index f))"
  by (cases fs) auto

lemma filter_zip_label:
  "length xs = length ys \<Longrightarrow> distinct xs \<Longrightarrow> l \<in> set xs \<Longrightarrow>
   filter (\<lambda>(g, r). g = l) (zip xs ys) = [(l, the (map_of (zip xs ys) l))]"
proof (induction xs ys rule: list_induct2)
  case Nil
  then show ?case by simp
next
  case (Cons x xs y ys)
  show ?case
  proof (cases "x = l")
    case True
    then have "l \<notin> set xs" using Cons.prems by simp
    then have "filter (\<lambda>(g, r). g = l) (zip xs ys) = []"
      by (auto simp: filter_empty_conv dest: set_zip_leftD)
    with True show ?thesis by simp
  next
    case False
    with Cons show ?thesis by simp
  qed
qed

lemma loc_valid:
  assumes "valid_frame f" "set cg \<subseteq> set (index f)"
  shows "loc f cg = Inr \<lparr>index = cg, columns = columns f, vals = map (row_of f) cg\<rparr>"
proof -
  have len: "length (index f) = length (vals f)" and d: "distinct (index f)"
    using assms(1) by (simp_all add: valid_frame_def)
  have "map (\<lambda>l. filter (\<lambda>(g, r). g = l) (zip (index f) (vals f))) cg
        = map (\<lambda>l. [(l, row_of f l)]) cg"
    using assms(2) by (intro map_cong refl) (auto simp: row_of_def filter_zip_label[OF len d])
  then have "concat (map (\<lambda>l. filter (\<lambda>(g, r). g = l) (zip (index f) (vals f))) cg)
        = concat (map (\<lambda>l. [(l, row_of f l)]) cg)"
    by (rule arg_cong)
  then have "concat (map (\<lambda>l. filter (\<lambda>(g, r). g = l) (zip (index f) (vals f))) cg)
        = map (\<lambda>l. (l, row_of f l)) cg"
    by (simp only: concat_map_singleton)
  moreover have "\<not> (\<exists>l \<in> set cg. l \<notin> set (index f))" using assms(2) by auto
  ultimately show ?thesis
    by (simp add: loc_def Let_def comp_def)
qed

lemma row_of_length:
  assumes "valid_frame f" "g \<in> set (index f)"
  shows "length (row_of f g) = length (columns f)"
proof -
  have len: "length (index f) = length (vals f)"
    using assms(1) by (simp add: valid_frame_def)
  from assms(2) len obtain r where "map_of (zip (index f) (vals f)) g = Some r"
    by (metis map_of_eq_None_iff map_fst_zip not_None_eq set_map)
  moreover from this have "r \<in> set (vals f)"
    by (auto dest!: map_of_SomeD set_zip_rightD)
  ultimately show ?thesis
    using assms(1) by (simp add: row_of_def valid_frame_def list_all_iff)
qed

lemma fold_update_upt:
  "k \<le> length objs \<Longrightarrow>
   fold (\<lambda>i s. s[i := g i]) [0..<k] objs = map g [0..<k] @ drop k objs"
proof (induction k)
  case 0
  then show ?case by simp
next
  case (Suc k)
  then have k: "k < length objs" by simp
  have "(map g [0..<k] @ drop k objs)[k := g k] = map g [0..<k] @ (drop k objs)[0 := g k]"
    by (simp add: list_update_append)
  also have "(drop k objs)[0 := g k] = g k # drop (Suc k) objs"
    using k by (metis Cons_nth_drop_Suc list_update_code(2))
  finally show ?case using Suc by simp
qed

lemma split_loop_map:
  "split_loop total_set sep_point objs =
     map (\<lambda>i. NdArray (slice_cols total_set (sum_list (take (i + 1) sep_point))
                                              (sum_list (take (i + 2) sep_point))))
         [0..<length objs]"
  using fold_update_upt[of "length objs" objs] by (simp add: split_loop_def)

lemma align_loop_frames_aux:
  assumes "\<forall>f \<in> set fs. loc f cg = Inr (al f)"
  shows "i \<le> length fs \<Longrightarrow>
    align_loop cg [i..<length fs] (map (DataFrame \<circ> al) (take i fs) @ map DataFrame (drop i fs), sep)
      = (None, map (DataFrame \<circ> al) fs, sep @ map (\<lambda>f. length (columns (al f))) (drop i fs))"
proof (induction "length fs - i" arbitrary: i sep)
  case 0
  then show ?case by simp
next
  case (Suc k)
  then have i: "i < length fs" by simp
  let ?objs = "map (DataFrame \<circ> al) (take i fs) @ map DataFrame (drop i fs)"
  have nth: "?objs ! i = DataFrame (fs ! i)"
    using i by (simp add: nth_append)
  have l: "loc (fs ! i) cg = Inr (al (fs ! i))" using assms i by simp
  have upd: "?objs[i := DataFrame (al (fs ! i))]
        = map (DataFrame \<circ> al) (take (Suc i) fs) @ map DataFrame (drop (Suc i) fs)"
    using i by (simp add: list_update_append take_Suc_conv_app_nth flip: Cons_nth_drop_Suc)
  have k: "k = length fs - Suc i" using Suc(2) by simp
  have "align_loop cg [i..<length fs] (?objs, sep)
      = align_loop cg [Suc i..<length fs] (?objs[i := DataFrame (al (fs ! i))], sep @ [length (columns (al (fs ! i)))])"
    using i nth l by (simp add: upt_conv_Cons)
  also have "\<dots> = (None, map (DataFrame \<circ> al) fs,
       (sep @ [length (columns (al (fs ! i)))]) @ map (\<lambda>f. length (columns (al f))) (drop (Suc i) fs))"
    unfolding upd using Suc(1)[OF k, of "sep @ [length (columns (al (fs ! i)))]"] i by simp
  also have "(sep @ [length (columns (al (fs ! i)))]) @ map (\<lambda>f. length (columns (al f))) (drop (Suc i) fs)
       = sep @ map (\<lambda>f. length (columns (al f))) (drop i fs)"
    using i by (simp flip: Cons_nth_drop_Suc)
  finally show ?case .
qed

lemma align_loop_frames:
  assumes "\<forall>f \<in> set fs. loc f cg = Inr (al f)"
  shows "align_loop cg [0..<length fs] (map DataFrame fs, sep)
      = (None, map (DataFrame \<circ> al) fs, sep @ map (\<lambda>f. length (columns (al f))) fs)"
  using align_loop_frames_aux[OF assms, of 0 sep] by simp

subsection \<open>The filters\<close>

lemma aligned_sets_valid:
  assumes "fs \<noteq> []" "list_all valid_frame fs"
  defines "cg \<equiv> sorted_list_of_set (\<Inter>f \<in> set fs. set (index f))"
  shows "aligned_sets fs =
     map (\<lambda>f. DataFrame \<lparr>index = cg, columns = columns f, vals = map (row_of f) cg\<rparr>) fs"
proof -
  have fin: "finite (\<Inter>f \<in> set fs. set (index f))" using assms(1) by (rule finite_common)
  have sub: "set cg \<subseteq> set (index f)" if "f \<in> set fs" for f
    using that fin by (auto simp: cg_def)
  have "(case loc f cg of Inl e \<Rightarrow> DataFrame f | Inr f' \<Rightarrow> DataFrame f')
        = DataFrame \<lparr>index = cg, columns = columns f, vals = map (row_of f) cg\<rparr>"
    if "f \<in> set fs" for f
    using that assms(2) sub[OF that] by (simp add: loc_valid list_all_iff)
  then show ?thesis
    by (simp add: aligned_sets_def common_genes_Inr[OF assms(1)] cg_def)
qed

lemma np_percentile_nonempty:
  assumes "xs \<noteq> []" "0 \<le> q" "q \<le> 100"
  shows "\<exists>p. np_percentile xs q = Inr p"
  using assms by (simp add: np_percentile_def Let_def)

lemma np_percentile_empty:
  assumes "0 \<le> q" "q \<le> 100"
  shows "np_percentile [] q = Inl IndexError"
  using assms by (simp add: np_percentile_def)

lemma boolean_index_filter:
  "boolean_index a (map P (map f (nd_rows a))) =
     \<lparr>nd_ncols = nd_ncols a, nd_rows = filter (\<lambda>r. P (f r)) (nd_rows a)\<rparr>"
proof -
  have "map snd (filter fst (zip (map P (map f rs)) rs)) = filter (\<lambda>r. P (f r)) rs" for rs
    by (induction rs) auto
  then show ?thesis by (simp add: boolean_index_def)
qed

lemma expression_filter_empty:
  "nd_rows a = [] \<Longrightarrow> expression_filter a = Inl IndexError"
  by (simp add: expression_filter_def np_percentile_empty)

lemma expression_filter_nonempty:
  assumes "nd_rows a \<noteq> []"
  shows "expression_filter a =
     Inr \<lparr>nd_ncols = nd_ncols a,
          nd_rows = filter (\<lambda>r. fge (np_sum r) (projr (np_percentile (map np_sum (nd_rows a)) 1))
                               \<and> fle (np_sum r) (projr (np_percentile (map np_sum (nd_rows a)) 99)))
                           (nd_rows a)\<rparr>"
proof -
  have ne: "map np_sum (nd_rows a) \<noteq> []" using assms by simp
  obtain p1 where p1: "np_percentile (map np_sum (nd_rows a)) 1 = Inr p1"
    using np_percentile_nonempty[OF ne, of 1] by auto
  obtain p99 where p99: "np_percentile (map np_sum (nd_rows a)) 99 = Inr p99"
    using np_percentile_nonempty[OF ne, of 99] by auto
  show ?thesis
    using boolean_index_filter[of a "\<lambda>x. fge x p1 \<and> fle x p99" np_sum]
    by (simp add: expression_filter_def p1 p99)
qed

lemma zero_mean_filter_eq:
  "zero_mean_filter a =
     \<lparr>nd_ncols = nd_ncols a, nd_rows = filter (\<lambda>r. fgt (np_mean r) (Fin 0)) (nd_rows a)\<rparr>"
  using boolean_index_filter[of a "\<lambda>m. fgt m (Fin 0)" np_mean]
  by (simp add: zero_mean_filter_def)

lemma coefficient_of_variation_eq:
  "coefficient_of_variation a = map (\<lambda>r. fdiv (np_std r) (np_mean r)) (nd_rows a)"
proof -
  have "map2 fdiv (map f rs) (map g rs) = map (\<lambda>r. fdiv (f r) (g r)) rs" for f g and rs :: "fl list list"
    by (induction rs) auto
  then show ?thesis by (simp add: coefficient_of_variation_def)
qed

lemma cv_filter_empty:
  "nd_rows a = [] \<Longrightarrow> cv_filter a = Inl IndexError"
  by (simp add: cv_filter_def coefficient_of_variation_eq np_percentile_empty)

lemma cv_filter_nonempty:
  assumes "nd_rows a \<noteq> []"
  shows "cv_filter a =
     Inr \<lparr>nd_ncols = nd_ncols a,
          nd_rows = filter (\<lambda>r. fge (fdiv (np_std r) (np_mean r)) (projr (np_percentile (coefficient_of_variation a) 1))
                               \<and> fle (fdiv (np_std r) (np_mean r)) (projr (np_percentile (coefficient_of_variation a) 99)))
                           (nd_rows a)\<rparr>"
proof -
  let ?cv = "\<lambda>r. fdiv (np_std r) (np_mean r)"
  have cv: "coefficient_of_variation a = map ?cv (nd_rows a)"
    by (rule coefficient_of_variation_eq)
  have ne: "coefficient_of_variation a \<noteq> []" using assms by (simp add: cv)
  obtain p1 where p1: "np_percentile (coefficient_of_variation a) 1 = Inr p1"
    using np_percentile_nonempty[OF ne, of 1] by auto
  obtain p99 where p99: "np_percentile (coefficient_of_variation a) 99 = Inr p99"
    using np_percentile_nonempty[OF ne, of 99] by auto
  have "boolean_index a (map (\<lambda>x. fge x p1 \<and> fle x p99) (map ?cv (nd_rows a)))
        = \<lparr>nd_ncols = nd_ncols a, nd_rows = filter (\<lambda>r. fge (?cv r) p1 \<and> fle (?cv r) p99) (nd_rows a)\<rparr>"
    by (rule boolean_index_filter)
  then show ?thesis
    by (simp add: cv_filter_def p1 p99 flip: cv)
qed

subsection \<open>Shapes and slices\<close>

lemma frames_of_aligned:
  "frames_of (map (\<lambda>f. DataFrame (al f)) fs) = Some (map al fs)"
  by (induction fs) auto

lemma pd_concat_aligned:
  assumes "fs \<noteq> []"
  shows "pd_concat (map (\<lambda>f. DataFrame \<lparr>index = cg, columns = columns f, vals = map (row_of f) cg\<rparr>) fs)
       = Inr \<lparr>nd_ncols = sum_list (map (\<lambda>f. length (columns f)) fs),
              nd_rows = map (\<lambda>g. concat (map (\<lambda>f. row_of f g) fs)) cg\<rparr>"
proof -
  let ?al = "\<lambda>f. \<lparr>index = cg, columns = columns f, vals = map (row_of f) cg\<rparr>"
  obtain s ss where fs: "fs = s # ss" using assms by (cases fs) auto
  have fo: "frames_of (map (\<lambda>f. DataFrame (?al f)) fs) = Some (?al s # map ?al ss)"
    by (simp add: frames_of_aligned fs)
  have same: "list_all (\<lambda>g. index g = index (?al s)) (map ?al ss)"
    by (simp add: list_all_iff)
  have rows: "map (\<lambda>k. concat (map (\<lambda>g. vals g ! k) (?al s # map ?al ss))) [0..<length (index (?al s))]
        = map (\<lambda>g. concat (map (\<lambda>f. row_of f g) fs)) cg"
    by (rule nth_equalityI) (simp_all add: fs comp_def)
  have cols: "sum_list (map (\<lambda>g. length (columns g)) (?al s # map ?al ss))
        = sum_list (map (\<lambda>f. length (columns f)) fs)"
    by (simp add: fs comp_def)
  show ?thesis
    unfolding pd_concat_def fo using same rows cols by simp
qed

lemma rectangular_combined:
  assumes "list_all valid_frame fs" "set cg \<subseteq> (\<Inter>f \<in> set fs. set (index f))"
  shows "rectangular \<lparr>nd_ncols = sum_list (map (\<lambda>f. length (columns f)) fs),
              nd_rows = map (\<lambda>g. concat (map (\<lambda>f. row_of f g) fs)) cg\<rparr>"
proof -
  have "length (concat (map (\<lambda>f. row_of f g) fs)) = sum_list (map (\<lambda>f. length (columns f)) fs)"
    if "g \<in> set cg" for g
  proof -
    have "map (\<lambda>f. length (row_of f g)) fs = map (\<lambda>f. length (columns f)) fs"
      using assms that by (intro map_cong refl row_of_length) (auto simp: list_all_iff)
    then have "sum_list (map (\<lambda>f. length (row_of f g)) fs) = sum_list (map (\<lambda>f. length (columns f)) fs)"
      by (rule arg_cong)
    then show ?thesis by (simp only: length_concat map_map comp_def)
  qed
  then show ?thesis by (simp add: rectangular_def list_all_iff)
qed

lemma library_size_normalize_shape:
  "nd_ncols (library_size_normalize a) = nd_ncols a"
  "length (nd_rows (library_size_normalize a)) = length (nd_rows a)"
  "rectangular a \<Longrightarrow> rectangular (library_size_normalize a)"
  by (simp_all add: library_size_normalize_def Let_def rectangular_def list_all_iff col_sums_def)

lemma log_transform_shape:
  "nd_ncols (log_transform a) = nd_ncols a"
  "length (nd_rows (log_transform a)) = length (nd_rows a)"
  "rectangular a \<Longrightarrow> rectangular (log_transform a)"
  by (simp_all add: log_transform_def rectangular_def list_all_iff)

lemma rectangular_filter:
  "rectangular a \<Longrightarrow> rectangular \<lparr>nd_ncols = nd_ncols a, nd_rows = filter P (nd_rows a)\<rparr>"
  by (simp add: rectangular_def list_all_iff)

lemma expression_filter_shape:
  assumes "expression_filter a = Inr b"
  shows "nd_ncols b = nd_ncols a" "rectangular a \<Longrightarrow> rectangular b"
proof -
  have ne: "nd_rows a \<noteq> []" using assms expression_filter_empty by fastforce
  from expression_filter_nonempty[OF ne] assms
  show "nd_ncols b = nd_ncols a" "rectangular a \<Longrightarrow> rectangular b"
    using rectangular_filter by auto
qed

lemma zero_mean_filter_shape:
  "nd_ncols (zero_mean_filter a) = nd_ncols a"
  "rectangular a \<Longrightarrow> rectangular (zero_mean_filter a)"
  by (simp_all add: zero_mean_filter_eq rectangular_filter)

lemma cv_filter_shape:
  assumes "cv_filter a = Inr b"
  shows "nd_ncols b = nd_ncols a" "rectangular a \<Longrightarrow> rectangular b"
proof -
  have ne: "nd_rows a \<noteq> []" using assms cv_filter_empty by fastforce
  from cv_filter_nonempty[OF ne] assms
  show "nd_ncols b = nd_ncols a" "rectangular a \<Longrightarrow> rectangular b"
    using rectangular_filter by auto
qed

lemma sum_list_take_le: "sum_list (take i (cs::nat list)) \<le> sum_list cs"
  by (metis append_take_drop_id le_add1 sum_list_append)

lemma sum_list_take_Suc:
  "i < length (cs::nat list) \<Longrightarrow> sum_list (take (Suc i) cs) = sum_list (take i cs) + cs ! i"
  by (simp add: take_Suc_conv_app_nth)

lemma slice_cols_sep:
  assumes "i < length cs" "nd_ncols a = sum_list cs"
  shows "slice_cols a (sum_list (take (i + 1) (0 # cs))) (sum_list (take (i + 2) (0 # cs)))
       = \<lparr>nd_ncols = cs ! i,
          nd_rows = map (\<lambda>r. take (cs ! i) (drop (sum_list (take i cs)) r)) (nd_rows a)\<rparr>"
proof -
  have le: "sum_list (take i cs) + cs ! i \<le> sum_list cs"
    using sum_list_take_le[of "Suc i" cs] assms(1) by (simp add: sum_list_take_Suc)
  show ?thesis
    using assms le by (simp add: slice_cols_def sum_list_take_Suc min_def)
qed

lemma concat_slices:
  "length r = sum_list cs \<Longrightarrow>
   concat (map (\<lambda>i. take (cs ! i) (drop (sum_list (take i cs)) r)) [0..<length cs]) = r"
proof (induction cs arbitrary: r)
  case Nil
  then show ?case by simp
next
  case (Cons c cs)
  have "[0..<length (c # cs)] = 0 # map Suc [0..<length cs]"
    by (simp add: upt_conv_Cons map_Suc_upt del: upt_Suc)
  then have "concat (map (\<lambda>i. take ((c # cs) ! i) (drop (sum_list (take i (c # cs))) r)) [0..<length (c # cs)])
      = take c r @ concat (map (\<lambda>i. take (cs ! i) (drop (sum_list (take i cs)) (drop c r))) [0..<length cs])"
    by (simp add: comp_def add.commute)
  also have "\<dots> = take c r @ drop c r"
    using Cons.IH[of "drop c r"] Cons.prems by simp
  finally show ?case by simp
qed

subsection \<open>The call on well-formed frames\<close>

lemma aligned_sets_loop:
  assumes "fs \<noteq> []" "list_all valid_frame fs"
  shows "common_genes fs = Inr cg \<Longrightarrow>
     align_loop cg [0..<length fs] (map DataFrame fs, sep)
       = (None, aligned_sets fs, sep @ map (\<lambda>f. length (columns f)) fs)"
proof -
  assume c: "common_genes fs = Inr cg"
  then have cg: "cg = sorted_list_of_set (\<Inter>f \<in> set fs. set (index f))"
    using common_genes_Inr[OF assms(1)] by simp
  let ?al = "\<lambda>f. \<lparr>index = cg, columns = columns f, vals = map (row_of f) cg\<rparr>"
  have fin: "finite (\<Inter>f \<in> set fs. set (index f))" using assms(1) by (rule finite_common)
  have "\<forall>f \<in> set fs. loc f cg = Inr (?al f)"
  proof
    fix f assume f: "f \<in> set fs"
    then have "set cg \<subseteq> set (index f)" using fin by (auto simp: cg)
    moreover have "valid_frame f" using f assms(2) by (simp add: list_all_iff)
    ultimately show "loc f cg = Inr (?al f)" by (simp add: loc_valid)
  qed
  from align_loop_frames[OF this, of sep]
  show ?thesis
    using aligned_sets_valid[OF assms] by (simp add: cg comp_def)
qed

lemma scale_sets_valid:
  assumes "h sets = map DataFrame fs" "fs \<noteq> []" "list_all valid_frame fs"
  shows "scale_sets sets h =
     (case filtered_total_set (aligned_sets fs) of
        Inl e \<Rightarrow> (Inl e, h(sets := aligned_sets fs))
      | Inr total_set \<Rightarrow>
          (Inr sets, h(sets := split_loop total_set (0 # map (\<lambda>f. length (columns f)) fs) (aligned_sets fs))))"
proof -
  obtain cg where cg: "common_genes fs = Inr cg"
    using common_genes_Inr[OF assms(2)] by blast
  have loop: "align_loop cg [0..<length fs] (map DataFrame fs, [0])
      = (None, aligned_sets fs, 0 # map (\<lambda>f. length (columns f)) fs)"
    using aligned_sets_loop[OF assms(2,3) cg, of "[0]"] by simp
  show ?thesis
    by (simp add: scale_sets_def assms(1) frames_of_map cg loop split: sum.split)
qed

lemma combined_matrix:
  assumes "fs \<noteq> []" "list_all valid_frame fs"
  shows "\<exists>t. pd_concat (aligned_sets fs) = Inr t
           \<and> nd_ncols t = sum_list (map (\<lambda>f. length (columns f)) fs)
           \<and> length (nd_rows t) = length (sorted_list_of_set (\<Inter>f \<in> set fs. set (index f)))
           \<and> rectangular t"
proof -
  let ?cg = "sorted_list_of_set (\<Inter>f \<in> set fs. set (index f))"
  have fin: "finite (\<Inter>f \<in> set fs. set (index f))" using assms(1) by (rule finite_common)
  have sub: "set ?cg \<subseteq> (\<Inter>f \<in> set fs. set (index f))" using fin by simp
  show ?thesis
    unfolding aligned_sets_valid[OF assms] pd_concat_aligned[OF assms(1)]
    using rectangular_combined[OF assms(2) sub] by simp
qed

lemma filtered_total_set_cases:
  assumes "fs \<noteq> []" "list_all valid_frame fs"
  shows "(rows_entering_cv fs = [] \<and> filtered_total_set (aligned_sets fs) = Inl IndexError)
       \<or> (rows_entering_cv fs \<noteq> [] \<and>
            (\<exists>final. filtered_total_set (aligned_sets fs) = Inr final
               \<and> nd_ncols final = sum_list (map (\<lambda>f. length (columns f)) fs)
               \<and> rectangular final))"
proof -
  obtain t where t: "pd_concat (aligned_sets fs) = Inr t"
      "nd_ncols t = sum_list (map (\<lambda>f. length (columns f)) fs)" "rectangular t"
    using combined_matrix[OF assms] by blast
  let ?l = "log_transform (library_size_normalize t)"
  have l: "nd_ncols ?l = nd_ncols t" "rectangular ?l"
    using t(3) by (simp_all add: log_transform_shape library_size_normalize_shape)
  show ?thesis
  proof (cases "expression_filter ?l")
    case (Inl e)
    then have "nd_rows ?l = []" using expression_filter_nonempty by fastforce
    then have "expression_filter ?l = Inl IndexError" by (rule expression_filter_empty)
    then show ?thesis by (simp add: rows_entering_cv_def filtered_total_set_def t(1))
  next
    case (Inr kept)
    let ?z = "zero_mean_filter kept"
    have z: "nd_ncols ?z = nd_ncols t" "rectangular ?z"
      using expression_filter_shape[OF Inr] l by (simp_all add: zero_mean_filter_shape)
    have r: "rows_entering_cv fs = nd_rows ?z"
      by (simp add: rows_entering_cv_def t(1) Inr)
    have f: "filtered_total_set (aligned_sets fs) = cv_filter ?z"
      by (simp add: filtered_total_set_def t(1) Inr)
    show ?thesis
    proof (cases "nd_rows ?z = []")
      case True
      then show ?thesis using r f by (simp add: cv_filter_empty)
    next
      case False
      then obtain final where final: "cv_filter ?z = Inr final"
        using cv_filter_nonempty by blast
      from cv_filter_shape[OF final] z t(2) False r f final
      show ?thesis by simp
    qed
  qed
qed

lemma split_valid:
  assumes "length objs = length fs" "nd_ncols final = sum_list (map (\<lambda>f. length (columns f)) fs)"
  shows "split_loop final (0 # map (\<lambda>f. length (columns f)) fs) objs
     = map (\<lambda>i. NdArray \<lparr>nd_ncols = length (columns (fs ! i)),
                nd_rows = map (\<lambda>r. take (length (columns (fs ! i)))
                                      (drop (sum_list (take i (map (\<lambda>f. length (columns f)) fs))) r))
                              (nd_rows final)\<rparr>) [0..<length fs]"
proof -
  let ?cs = "map (\<lambda>f. length (columns f)) fs"
  have "slice_cols final (sum_list (take (i + 1) (0 # ?cs))) (sum_list (take (i + 2) (0 # ?cs)))
      = \<lparr>nd_ncols = length (columns (fs ! i)),
          nd_rows = map (\<lambda>r. take (length (columns (fs ! i))) (drop (sum_list (take i ?cs)) r)) (nd_rows final)\<rparr>"
    if "i < length fs" for i
    using slice_cols_sep[of i ?cs final] that assms(2) by simp
  then show ?thesis
    unfolding split_loop_map assms(1) by (intro map_cong refl arg_cong[where f = NdArray]) simp
qed

lemma length_aligned_sets:
  "fs \<noteq> [] \<Longrightarrow> length (aligned_sets fs) = length fs"
  by (cases fs) (simp_all add: aligned_sets_def)

lemma scale_sets_frame: "a \<noteq> sets \<Longrightarrow> snd (scale_sets sets h) a = h a"
  by (simp add: scale_sets_def split: option.split sum.split prod.split)

lemma scale_sets_returns_argument: "fst (scale_sets sets h) = Inr r \<Longrightarrow> r = sets"
  by (simp add: scale_sets_def split: option.splits sum.splits prod.splits)

lemma loc_no_label: "loc f [] = Inr \<lparr>index = [], columns = columns f, vals = []\<rparr>"
  by (simp add: loc_def)

lemma scale_sets_no_common:
  assumes "h sets = map DataFrame fs" "common_genes fs = Inr []"
  shows "scale_sets sets h =
     (Inl IndexError, h(sets := map (\<lambda>f. DataFrame \<lparr>index = [], columns = columns f, vals = []\<rparr>) fs))"
proof -
  let ?al = "\<lambda>f. \<lparr>index = [], columns = columns f, vals = []\<rparr>"
  have ne: "fs \<noteq> []" using assms(2) by auto
  have loop: "align_loop [] [0..<length fs] (map DataFrame fs, [0])
      = (None, map (DataFrame \<circ> ?al) fs, [0] @ map (\<lambda>f. length (columns (?al f))) fs)"
    by (rule align_loop_frames) (simp add: loc_no_label)
  have "pd_concat (map (\<lambda>f. DataFrame \<lparr>index = [], columns = columns f, vals = map (row_of f) []\<rparr>) fs)
       = Inr \<lparr>nd_ncols = sum_list (map (\<lambda>f. length (columns f)) fs),
              nd_rows = map (\<lambda>g. concat (map (\<lambda>f. row_of f g) fs)) []\<rparr>"
    using ne by (rule pd_concat_aligned)
  then obtain t where t: "pd_concat (map (DataFrame \<circ> ?al) fs) = Inr t" "nd_rows t = []"
    by (simp add: comp_def)
  have "nd_rows (log_transform (library_size_normalize t)) = []"
    using t(2) log_transform_shape(2)[of "library_size_normalize t"]
      library_size_normalize_shape(2)[of t] by simp
  then have "expression_filter (log_transform (library_size_normalize t)) = Inl IndexError"
    by (rule expression_filter_empty)
  then have f: "filtered_total_set (map (DataFrame \<circ> ?al) fs) = Inl IndexError"
    by (simp add: filtered_total_set_def t(1))
  show ?thesis
    using loop f by (simp add: scale_sets_def assms frames_of_map comp_def)
qed

subsection \<open>The examples, evaluated\<close>

lemma common_genes_sparse: "common_genes [sparse_a, sparse_b] = Inr [''A'', ''B'', ''C'']"
  by code_simp

lemma aligned_sets_sparse: "aligned_sets [sparse_a, sparse_b] =
  [DataFrame \<lparr>index = [''A'', ''B'', ''C''], columns = [''c1''], vals = [[Fin 0], [Fin 0], [Fin 1]]\<rparr>,
   DataFrame \<lparr>index = [''A'', ''B'', ''C''], columns = [''d1''], vals = [[Fin 0], [Fin 0], [Fin 1]]\<rparr>]"
  by (simp add: aligned_sets_def common_genes_sparse) (simp add: sparse_a_def sparse_b_def loc_def)

lemma pd_concat_sparse: "pd_concat (aligned_sets [sparse_a, sparse_b]) =
   Inr \<lparr>nd_ncols = 2, nd_rows = [[Fin 0, Fin 0], [Fin 0, Fin 0], [Fin 1, Fin 1]]\<rparr>"
  by (simp add: aligned_sets_sparse pd_concat_def upt_rec)

lemma normalize_sparse: "library_size_normalize \<lparr>nd_ncols = 2, nd_rows = [[Fin 0, Fin 0], [Fin 0, Fin 0], [Fin 1, Fin 1]]\<rparr>
   = \<lparr>nd_ncols = 2, nd_rows = [[Fin 0, Fin 0], [Fin 0, Fin 0], [Fin 20000, Fin 20000]]\<rparr>"
  by (simp add: library_size_normalize_def col_sums_def np_sum_def upt_rec)

lemma log_transform_sparse: "log_transform \<lparr>nd_ncols = 2, nd_rows = [[Fin 0, Fin 0], [Fin 0, Fin 0], [Fin 20000, Fin 20000]]\<rparr>
   = \<lparr>nd_ncols = 2, nd_rows = [[Fin 0, Fin 0], [Fin 0, Fin 0], [Fin (log 2 20001), Fin (log 2 20001)]]\<rparr>"
  by (simp add: log_transform_def)

lemma expression_filter_sparse: "expression_filter \<lparr>nd_ncols = 2, nd_rows = [[Fin 0, Fin 0], [Fin 0, Fin 0], [Fin (log 2 20001), Fin (log 2 20001)]]\<rparr>
   = Inr \<lparr>nd_ncols = 2, nd_rows = [[Fin 0, Fin 0], [Fin 0, Fin 0]]\<rparr>"
  apply (simp add: expression_filter_def np_sum_def np_percentile_def sort_fl_def lerp_def fsub_def fge_def boolean_index_def Let_def)
  done


lemma zero_mean_filter_sparse: "zero_mean_filter \<lparr>nd_ncols = 2, nd_rows = [[Fin 0, Fin 0], [Fin 0, Fin 0]]\<rparr>
   = \<lparr>nd_ncols = 2, nd_rows = []\<rparr>"
  by (simp add: zero_mean_filter_def np_mean_def np_sum_def fgt_def boolean_index_def)

lemma filtered_total_set_sparse: "filtered_total_set (aligned_sets [sparse_a, sparse_b]) = Inl IndexError"
  by (simp add: filtered_total_set_def pd_concat_sparse normalize_sparse log_transform_sparse expression_filter_sparse zero_mean_filter_sparse cv_filter_empty)

lemma valid_sparse: "list_all valid_frame [sparse_a, sparse_b]"
  by (simp add: valid_frame_def sparse_a_def sparse_b_def)

lemma common_genes_overlap: "common_genes [overlap_a, overlap_b] = Inr [''B'']"
  by code_simp

lemma aligned_sets_overlap: "aligned_sets [overlap_a, overlap_b] =
  [DataFrame \<lparr>index = [''B''], columns = [''c1'', ''c2''], vals = [[Fin 1, Fin 3]]\<rparr>,
   DataFrame \<lparr>index = [''B''], columns = [''d1''], vals = [[Fin 2]]\<rparr>]"
  by (simp add: aligned_sets_def common_genes_overlap) (simp add: overlap_a_def overlap_b_def loc_def)

lemma pd_concat_overlap: "pd_concat (aligned_sets [overlap_a, overlap_b]) =
   Inr \<lparr>nd_ncols = 3, nd_rows = [[Fin 1, Fin 3, Fin 2]]\<rparr>"
  by (simp add: aligned_sets_overlap pd_concat_def upt_rec)

lemma normalize_overlap: "library_size_normalize \<lparr>nd_ncols = 3, nd_rows = [[Fin 1, Fin 3, Fin 2]]\<rparr>
   = \<lparr>nd_ncols = 3, nd_rows = [[Fin 20000, Fin 20000, Fin 20000]]\<rparr>"
  by (simp add: library_size_normalize_def col_sums_def np_sum_def upt_rec)

lemma log_transform_overlap: "log_transform \<lparr>nd_ncols = 3, nd_rows = [[Fin 20000, Fin 20000, Fin 20000]]\<rparr>
   = \<lparr>nd_ncols = 3, nd_rows = [[Fin (log 2 20001), Fin (log 2 20001), Fin (log 2 20001)]]\<rparr>"
  by (simp add: log_transform_def)

lemma expression_filter_overlap: "expression_filter \<lparr>nd_ncols = 3, nd_rows = [[Fin (log 2 20001), Fin (log 2 20001), Fin (log 2 20001)]]\<rparr>
   = Inr \<lparr>nd_ncols = 3, nd_rows = [[Fin (log 2 20001), Fin (log 2 20001), Fin (log 2 20001)]]\<rparr>"
  by (simp add: expression_filter_def np_sum_def np_percentile_def sort_fl_def lerp_def fsub_def fge_def boolean_index_def Let_def)

lemma zero_mean_filter_overlap: "zero_mean_filter \<lparr>nd_ncols = 3, nd_rows = [[Fin (log 2 20001), Fin (log 2 20001), Fin (log 2 20001)]]\<rparr>
   = \<lparr>nd_ncols = 3, nd_rows = [[Fin (log 2 20001), Fin (log 2 20001), Fin (log 2 20001)]]\<rparr>"
  by (simp add: zero_mean_filter_def np_mean_def np_sum_def fgt_def boolean_index_def)

lemma rows_entering_cv_overlap: "rows_entering_cv [overlap_a, overlap_b] = [[Fin (log 2 20001), Fin (log 2 20001), Fin (log 2 20001)]]"
  by (simp add: rows_entering_cv_def pd_concat_overlap normalize_overlap log_transform_overlap expression_filter_overlap zero_mean_filter_overlap)

lemma log2_20001_nonzero: "log 2 20001 \<noteq> (0::real)"
proof -
  have "0 < log 2 (20001::real)" by simp
  then show ?thesis by (rule less_imp_neq[THEN not_sym])
qed

lemma cv_filter_overlap: "cv_filter \<lparr>nd_ncols = 3, nd_rows = [[Fin (log 2 20001), Fin (log 2 20001), Fin (log 2 20001)]]\<rparr>
   = Inr \<lparr>nd_ncols = 3, nd_rows = [[Fin (log 2 20001), Fin (log 2 20001), Fin (log 2 20001)]]\<rparr>"
  by (simp add: cv_filter_def coefficient_of_variation_def np_std_def np_mean_def np_sum_def np_percentile_def sort_fl_def lerp_def fsub_def fge_def boolean_index_def Let_def log2_20001_nonzero)

lemma filtered_total_set_overlap: "filtered_total_set (aligned_sets [overlap_a, overlap_b]) = Inr \<lparr>nd_ncols = 3, nd_rows = [[Fin (log 2 20001), Fin (log 2 20001), Fin (log 2 20001)]]\<rparr>"
  by (simp add: filtered_total_set_def pd_concat_overlap normalize_overlap log_transform_overlap expression_filter_overlap zero_mean_filter_overlap cv_filter_overlap)

lemma split_loop_overlap: "split_loop \<lparr>nd_ncols = 3, nd_rows = [[Fin (log 2 20001), Fin (log 2 20001), Fin (log 2 20001)]]\<rparr> [0, 2, 1] (aligned_sets [overlap_a, overlap_b])
  = [NdArray \<lparr>nd_ncols = 2, nd_rows = [[Fin (log 2 20001), Fin (log 2 20001)]]\<rparr>,
     NdArray \<lparr>nd_ncols = 1, nd_rows = [[Fin (log 2 20001)]]\<rparr>]"
  by (simp add: split_loop_def aligned_sets_overlap slice_cols_def upt_rec)

lemma common_genes_disjoint: "common_genes [disjoint_a, disjoint_b] = Inr []"
  by code_simp

subsection \<open>Shape of the result\<close>

text \<open>
  C1, as stated, fails: a non-empty common feature index does not make the call return.
  On the pair \<open>sparse_a\<close>, \<open>sparse_b\<close> the common genes are A, B and C, the 99th percentile
  of the row sums lies below the sum of row C, the two rows that remain are all zero and
  are dropped by the zero-mean exclusion, and \<open>np.percentile\<close> of the empty vector of
  coefficients of variation raises \<open>IndexError\<close>.
\<close>

theorem scale_sets_shapes_counterexample:
  "common_genes [sparse_a, sparse_b] = Inr [''A'', ''B'', ''C'']
   \<and> scale_sets 0 (empty_heap(0 := [DataFrame sparse_a, DataFrame sparse_b]))
       = (Inl IndexError, empty_heap(0 := aligned_sets [sparse_a, sparse_b]))"
proof -
  have "scale_sets 0 (empty_heap(0 := [DataFrame sparse_a, DataFrame sparse_b]))
       = (Inl IndexError, (empty_heap(0 := [DataFrame sparse_a, DataFrame sparse_b]))(0 := aligned_sets [sparse_a, sparse_b]))"
    using valid_sparse filtered_total_set_sparse by (subst scale_sets_valid[where fs = "[sparse_a, sparse_b]"]) simp_all
  then show ?thesis using common_genes_sparse by simp
qed

text \<open>
  C1, amended. For every list of one or more well-formed frames such that at least one row
  of the combined matrix passes the expression filter and the zero-mean exclusion,
  \<open>scale_sets\<close> returns the list it was given, of the same length; output \<open>i\<close> has the
  column count of input \<open>i\<close>, in every row; all outputs have the rows of the one filtered
  combined matrix, in its order: the \<open>k\<close>-th rows of the outputs, put side by side, are its
  \<open>k\<close>-th row.
\<close>

theorem scale_sets_shapes:
  assumes "h sets = map DataFrame fs" "fs \<noteq> []" "list_all valid_frame fs"
    and "rows_entering_cv fs \<noteq> []"
  shows "\<exists>final outs.
       filtered_total_set (aligned_sets fs) = Inr final
     \<and> scale_sets sets h = (Inr sets, h(sets := map NdArray outs))
     \<and> length outs = length fs
     \<and> (\<forall>i < length fs. nd_ncols (outs ! i) = length (columns (fs ! i))
            \<and> rectangular (outs ! i)
            \<and> length (nd_rows (outs ! i)) = length (nd_rows final))
     \<and> (\<forall>k < length (nd_rows final). concat (map (\<lambda>a. nd_rows a ! k) outs) = nd_rows final ! k)"
proof -
  let ?cs = "map (\<lambda>f. length (columns f)) fs"
  from filtered_total_set_cases[OF assms(2,3)] assms(4)
  obtain final where final: "filtered_total_set (aligned_sets fs) = Inr final"
    "nd_ncols final = sum_list ?cs" "rectangular final"
    by blast
  define out where "out = (\<lambda>i. \<lparr>nd_ncols = ?cs ! i,
       nd_rows = map (\<lambda>r. take (?cs ! i) (drop (sum_list (take i ?cs)) r)) (nd_rows final)\<rparr>)"
  define outs where "outs = map out [0..<length fs]"
  have split: "split_loop final (0 # ?cs) (aligned_sets fs) = map NdArray outs"
    using split_valid[OF length_aligned_sets[OF assms(2)] final(2)]
    by (simp add: outs_def out_def comp_def)
  have run: "scale_sets sets h = (Inr sets, h(sets := map NdArray outs))"
    by (simp add: scale_sets_valid[where h = h and sets = sets, OF assms(1-3)] final(1) split)
  have rowlen: "length r = sum_list ?cs" if "r \<in> set (nd_rows final)" for r
    using final(2,3) that by (simp add: rectangular_def list_all_iff)
  have shape: "nd_ncols (outs ! i) = length (columns (fs ! i)) \<and> rectangular (outs ! i)
       \<and> length (nd_rows (outs ! i)) = length (nd_rows final)" if "i < length fs" for i
  proof -
    have le: "sum_list (take i ?cs) + ?cs ! i \<le> sum_list ?cs"
      using sum_list_take_le[of "Suc i" ?cs] that by (simp add: sum_list_take_Suc)
    have "length (take (?cs ! i) (drop (sum_list (take i ?cs)) r)) = ?cs ! i"
      if "r \<in> set (nd_rows final)" for r
      using rowlen[OF that] le by simp
    then have "rectangular (out i)"
      by (simp add: out_def rectangular_def list_all_iff)
    then show ?thesis using that by (simp add: outs_def out_def)
  qed
  have rows: "concat (map (\<lambda>a. nd_rows a ! k) outs) = nd_rows final ! k"
    if "k < length (nd_rows final)" for k
  proof -
    have "map (\<lambda>a. nd_rows a ! k) outs
        = map (\<lambda>i. take (?cs ! i) (drop (sum_list (take i ?cs)) (nd_rows final ! k))) [0..<length ?cs]"
      using that by (simp add: outs_def out_def comp_def)
    moreover have "length (nd_rows final ! k) = sum_list ?cs"
      using that by (intro rowlen) simp
    ultimately show ?thesis using concat_slices[of "nd_rows final ! k" ?cs] by simp
  qed
  show ?thesis
    using final(1) run shape rows by (intro exI[of _ final] exI[of _ outs]) (simp add: outs_def)
qed

theorem scale_sets_shapes_witness:
  "(empty_heap(0 := [DataFrame overlap_a, DataFrame overlap_b])) 0 = map DataFrame [overlap_a, overlap_b]
   \<and> [overlap_a, overlap_b] \<noteq> []
   \<and> list_all valid_frame [overlap_a, overlap_b]
   \<and> rows_entering_cv [overlap_a, overlap_b] \<noteq> []
   \<and> (\<exists>final outs.
         filtered_total_set (aligned_sets [overlap_a, overlap_b]) = Inr final
       \<and> scale_sets 0 (empty_heap(0 := [DataFrame overlap_a, DataFrame overlap_b]))
            = (Inr 0, (empty_heap(0 := [DataFrame overlap_a, DataFrame overlap_b]))(0 := map NdArray outs))
       \<and> length outs = length [overlap_a, overlap_b]
       \<and> (\<forall>i < length [overlap_a, overlap_b]. nd_ncols (outs ! i) = length (columns ([overlap_a, overlap_b] ! i))
              \<and> rectangular (outs ! i)
              \<and> length (nd_rows (outs ! i)) = length (nd_rows final))
       \<and> (\<forall>k < length (nd_rows final). concat (map (\<lambda>a. nd_rows a ! k) outs) = nd_rows final ! k))"
proof -
  have h: "(empty_heap(0 := [DataFrame overlap_a, DataFrame overlap_b])) 0 = map DataFrame [overlap_a, overlap_b]"
    by simp
  have ne: "[overlap_a, overlap_b] \<noteq> []" by simp
  have v: "list_all valid_frame [overlap_a, overlap_b]"
    by (simp add: valid_frame_def overlap_a_def overlap_b_def)
  have r: "rows_entering_cv [overlap_a, overlap_b] \<noteq> []"
    by (simp add: rows_entering_cv_overlap)
  from scale_sets_shapes[where h = "empty_heap(0 := [DataFrame overlap_a, DataFrame overlap_b])" and sets = 0, OF h ne v r]
    h ne v r show ?thesis by blast
qed

subsection \<open>No common gene\<close>

text \<open>
  C7, as stated, fails: the code has no check of the common feature index. On the pair
  \<open>disjoint_a\<close>, \<open>disjoint_b\<close> the call does not end with \<open>MissingCommonFeatures\<close> but
  with the \<open>IndexError\<close> of \<open>np.percentile\<close>.
\<close>

theorem scale_sets_empty_common_index_counterexample:
  "common_genes [disjoint_a, disjoint_b] = Inr []
   \<and> fst (scale_sets 0 (empty_heap(0 := [DataFrame disjoint_a, DataFrame disjoint_b]))) = Inl IndexError
   \<and> fst (scale_sets 0 (empty_heap(0 := [DataFrame disjoint_a, DataFrame disjoint_b]))) \<noteq> Inl MissingCommonFeatures"
proof -
  have h: "(empty_heap(0 := [DataFrame disjoint_a, DataFrame disjoint_b])) 0 = map DataFrame [disjoint_a, disjoint_b]"
    by simp
  from scale_sets_no_common[where h = "empty_heap(0 := [DataFrame disjoint_a, DataFrame disjoint_b])" and sets = 0, OF h common_genes_disjoint]
  show ?thesis using common_genes_disjoint by simp
qed

text \<open>
  C7, amended. When the frames have no common feature, \<open>scale_sets\<close> computes an empty
  common index, overwrites every slot of the list with a frame of no row and the slot's
  columns, and then fails with \<open>IndexError\<close>, raised by \<open>np.percentile\<close> on the empty vector
  of row sums in the expression filter.
\<close>

theorem scale_sets_empty_common_index:
  assumes "h sets = map DataFrame fs" "fs \<noteq> []" "(\<Inter>f \<in> set fs. set (index f)) = {}"
  shows "common_genes fs = Inr []
     \<and> scale_sets sets h =
         (Inl IndexError, h(sets := map (\<lambda>f. DataFrame \<lparr>index = [], columns = columns f, vals = []\<rparr>) fs))"
proof -
  have c: "common_genes fs = Inr []"
    using common_genes_Inr[OF assms(2)] assms(3) by simp
  with scale_sets_no_common[where h = h and sets = sets, OF assms(1) c] show ?thesis by simp
qed

theorem scale_sets_empty_common_index_witness:
  "(empty_heap(0 := [DataFrame disjoint_a, DataFrame disjoint_b])) 0 = map DataFrame [disjoint_a, disjoint_b]
   \<and> [disjoint_a, disjoint_b] \<noteq> []
   \<and> (\<Inter>f \<in> set [disjoint_a, disjoint_b]. set (index f)) = {}
   \<and> scale_sets 0 (empty_heap(0 := [DataFrame disjoint_a, DataFrame disjoint_b])) =
       (Inl IndexError,
        empty_heap(0 := [DataFrame \<lparr>index = [], columns = [''c1''], vals = []\<rparr>,
                         DataFrame \<lparr>index = [], columns = [''d1'', ''d2''], vals = []\<rparr>]))"
proof -
  have h: "(empty_heap(0 := [DataFrame disjoint_a, DataFrame disjoint_b])) 0 = map DataFrame [disjoint_a, disjoint_b]"
    by simp
  have ne: "[disjoint_a, disjoint_b] \<noteq> []" by simp
  have e: "(\<Inter>f \<in> set [disjoint_a, disjoint_b]. set (index f)) = {}"
    by (simp add: disjoint_a_def disjoint_b_def)
  from scale_sets_empty_common_index[where h = "empty_heap(0 := [DataFrame disjoint_a, DataFrame disjoint_b])" and sets = 0, OF h ne e]
  have "scale_sets 0 (empty_heap(0 := [DataFrame disjoint_a, DataFrame disjoint_b])) =
       (Inl IndexError,
        empty_heap(0 := [DataFrame \<lparr>index = [], columns = [''c1''], vals = []\<rparr>,
                         DataFrame \<lparr>index = [], columns = [''d1'', ''d2''], vals = []\<rparr>]))"
    by (simp add: disjoint_a_def disjoint_b_def)
  with h ne e show ?thesis by blast
qed

subsection \<open>The common feature index and the alignment\<close>

lemma filters_subseq:
  assumes "filtered_total_set objs = Inr final" "pd_concat objs = Inr t"
  shows "subseq (nd_rows final) (nd_rows (log_transform (library_size_normalize t)))"
proof -
  let ?l = "log_transform (library_size_normalize t)"
  from assms obtain kept where kept: "expression_filter ?l = Inr kept"
    and cv: "cv_filter (zero_mean_filter kept) = Inr final"
    by (auto simp: filtered_total_set_def split: sum.splits)
  have "nd_rows ?l \<noteq> []" using kept expression_filter_empty by fastforce
  from expression_filter_nonempty[OF this] kept
  have 1: "subseq (nd_rows kept) (nd_rows ?l)" by auto
  have 2: "subseq (nd_rows (zero_mean_filter kept)) (nd_rows kept)"
    by (simp add: zero_mean_filter_eq)
  have "nd_rows (zero_mean_filter kept) \<noteq> []" using cv cv_filter_empty by fastforce
  from cv_filter_nonempty[OF this] cv
  have 3: "subseq (nd_rows final) (nd_rows (zero_mean_filter kept))" by auto
  from 3 2 1 show ?thesis by (meson subseq_order.trans)
qed

lemma row_of_nth:
  assumes "valid_frame f" "g \<in> set (index f)"
  shows "\<exists>k < length (index f). index f ! k = g \<and> row_of f g = vals f ! k"
proof -
  have len: "length (index f) = length (vals f)" and d: "distinct (index f)"
    using assms(1) by (simp_all add: valid_frame_def)
  from assms(2) obtain k where k: "k < length (index f)" "index f ! k = g"
    by (auto simp: in_set_conv_nth)
  have "map_of (zip (index f) (vals f)) (index f ! k) = Some (vals f ! k)"
    using len d k(1) by (intro map_of_zip_nth) simp_all
  with k show ?thesis by (auto simp: row_of_def)
qed

lemma upt_length_Cons: "[0..<length (y # ys)] = 0 # map Suc [0..<length ys]"
  unfolding map_Suc_upt length_Cons by (rule upt_conv_Cons) simp

lemma subseq_positions:
  "subseq ys xs \<Longrightarrow> \<exists>ks. subseq ks [0..<length xs] \<and> ys = map (\<lambda>k. xs ! k) ks"
proof (induction rule: list_emb.induct)
  case (list_emb_Nil ys)
  have "subseq [] [0..<length ys] \<and> [] = map (\<lambda>k. ys ! k) []" by simp
  then show ?case by (rule exI)
next
  case (list_emb_Cons xs ys y)
  then obtain ks where ks: "subseq ks [0..<length ys]" "xs = map (\<lambda>k. ys ! k) ks" by blast
  have "subseq (map Suc ks) (map Suc [0..<length ys])" using ks(1) by (rule subseq_map)
  then have a: "subseq (map Suc ks) [0..<length (y # ys)]"
    unfolding upt_length_Cons by (rule list_emb.intros(2))
  have b: "xs = map (\<lambda>k. (y # ys) ! k) (map Suc ks)" using ks(2) by (simp add: comp_def)
  from a b have "subseq (map Suc ks) [0..<length (y # ys)] \<and> xs = map (\<lambda>k. (y # ys) ! k) (map Suc ks)" ..
  then show ?case by (rule exI)
next
  case (list_emb_Cons2 x y xs ys)
  then obtain ks where ks: "subseq ks [0..<length ys]" "xs = map (\<lambda>k. ys ! k) ks" by blast
  have "subseq (map Suc ks) (map Suc [0..<length ys])" using ks(1) by (rule subseq_map)
  then have a: "subseq (0 # map Suc ks) [0..<length (y # ys)]"
    unfolding upt_length_Cons by (intro list_emb.intros(3) refl)
  have b: "x # xs = map (\<lambda>k. (y # ys) ! k) (0 # map Suc ks)"
    using ks(2) list_emb_Cons2(1) by (simp add: comp_def)
  from a b have "subseq (0 # map Suc ks) [0..<length (y # ys)] \<and> x # xs = map (\<lambda>k. (y # ys) ! k) (0 # map Suc ks)" ..
  then show ?case by (rule exI)
qed


lemma graded_rows_expression_filter:
  fixes lb lc ld :: real
  assumes "lb < lc" "lc < ld"
  shows "expression_filter \<lparr>nd_ncols = 3, nd_rows = [[Fin lb, Fin lb, Fin lb], [Fin lc, Fin lc, Fin lc], [Fin ld, Fin ld, Fin ld]]\<rparr>
     = Inr \<lparr>nd_ncols = 3, nd_rows = [[Fin lc, Fin lc, Fin lc]]\<rparr>"
proof -
  have 1: "3 * lb + (3 * lc - 3 * lb) / 50 \<le> 3 * lc" using assms by (simp add: field_simps)
  have 2: "3 * lc \<le> 3 * ld - (3 * ld - 3 * lc) / 50" using assms by (simp add: field_simps)
  show ?thesis
    using assms 1 2
    by (simp add: expression_filter_def np_sum_def np_percentile_def sort_fl_def lerp_def fsub_def fge_def boolean_index_def Let_def)
qed

lemma valid_scenario: "list_all valid_frame [scenario_a, scenario_b]"
  by (simp add: valid_frame_def scenario_a_def scenario_b_def)

lemma common_genes_scenario: "common_genes [scenario_a, scenario_b] = Inr [''B'', ''C'', ''D'']"
  by code_simp

lemma aligned_sets_scenario: "aligned_sets [scenario_a, scenario_b] =
  [DataFrame \<lparr>index = [''B'', ''C'', ''D''], columns = [''c1'', ''c2''],
               vals = [[Fin 2, Fin 20], [Fin 3, Fin 30], [Fin 4, Fin 40]]\<rparr>,
   DataFrame \<lparr>index = [''B'', ''C'', ''D''], columns = [''d1''],
               vals = [[Fin 200], [Fin 300], [Fin 400]]\<rparr>]"
  by (simp add: aligned_sets_def common_genes_scenario) (simp add: scenario_a_def scenario_b_def loc_def)

lemma pd_concat_scenario: "pd_concat (aligned_sets [scenario_a, scenario_b]) =
   Inr \<lparr>nd_ncols = 3, nd_rows = [[Fin 2, Fin 20, Fin 200], [Fin 3, Fin 30, Fin 300], [Fin 4, Fin 40, Fin 400]]\<rparr>"
  by (simp add: aligned_sets_scenario pd_concat_def upt_rec)

lemma normalize_scenario:
  "library_size_normalize \<lparr>nd_ncols = 3, nd_rows = [[Fin 2, Fin 20, Fin 200], [Fin 3, Fin 30, Fin 300], [Fin 4, Fin 40, Fin 400]]\<rparr>
   = \<lparr>nd_ncols = 3, nd_rows = [[Fin (40000 / 9), Fin (40000 / 9), Fin (40000 / 9)],
                               [Fin (20000 / 3), Fin (20000 / 3), Fin (20000 / 3)],
                               [Fin (80000 / 9), Fin (80000 / 9), Fin (80000 / 9)]]\<rparr>"
  by (simp add: library_size_normalize_def col_sums_def np_sum_def upt_rec)

lemma log_transform_scenario:
  "log_transform \<lparr>nd_ncols = 3, nd_rows = [[Fin (40000 / 9), Fin (40000 / 9), Fin (40000 / 9)],
                               [Fin (20000 / 3), Fin (20000 / 3), Fin (20000 / 3)],
                               [Fin (80000 / 9), Fin (80000 / 9), Fin (80000 / 9)]]\<rparr>
   = \<lparr>nd_ncols = 3, nd_rows = [[Fin (log 2 (40009 / 9)), Fin (log 2 (40009 / 9)), Fin (log 2 (40009 / 9))],
                               [Fin (log 2 (20003 / 3)), Fin (log 2 (20003 / 3)), Fin (log 2 (20003 / 3))],
                               [Fin (log 2 (80009 / 9)), Fin (log 2 (80009 / 9)), Fin (log 2 (80009 / 9))]]\<rparr>"
  by (simp add: log_transform_def)

lemma expression_filter_scenario:
  "expression_filter \<lparr>nd_ncols = 3, nd_rows = [[Fin (log 2 (40009 / 9)), Fin (log 2 (40009 / 9)), Fin (log 2 (40009 / 9))],
                               [Fin (log 2 (20003 / 3)), Fin (log 2 (20003 / 3)), Fin (log 2 (20003 / 3))],
                               [Fin (log 2 (80009 / 9)), Fin (log 2 (80009 / 9)), Fin (log 2 (80009 / 9))]]\<rparr>
   = Inr \<lparr>nd_ncols = 3, nd_rows = [[Fin (log 2 (20003 / 3)), Fin (log 2 (20003 / 3)), Fin (log 2 (20003 / 3))]]\<rparr>"
proof -
  have "log 2 (40009 / 9) < log 2 (20003 / 3 :: real)" by (subst log_less_cancel_iff) simp_all
  moreover have "log 2 (20003 / 3) < log 2 (80009 / 9 :: real)" by (subst log_less_cancel_iff) simp_all
  ultimately show ?thesis by (rule graded_rows_expression_filter)
qed

lemma log2_scenario_pos: "0 < log 2 (20003 / 3 :: real)"
  by (subst zero_less_log_cancel_iff) simp_all

lemma zero_mean_filter_scenario:
  "zero_mean_filter \<lparr>nd_ncols = 3, nd_rows = [[Fin (log 2 (20003 / 3)), Fin (log 2 (20003 / 3)), Fin (log 2 (20003 / 3))]]\<rparr>
   = \<lparr>nd_ncols = 3, nd_rows = [[Fin (log 2 (20003 / 3)), Fin (log 2 (20003 / 3)), Fin (log 2 (20003 / 3))]]\<rparr>"
  using log2_scenario_pos
  by (simp add: zero_mean_filter_def np_mean_def np_sum_def fgt_def boolean_index_def)

lemma cv_filter_scenario:
  "cv_filter \<lparr>nd_ncols = 3, nd_rows = [[Fin (log 2 (20003 / 3)), Fin (log 2 (20003 / 3)), Fin (log 2 (20003 / 3))]]\<rparr>
   = Inr \<lparr>nd_ncols = 3, nd_rows = [[Fin (log 2 (20003 / 3)), Fin (log 2 (20003 / 3)), Fin (log 2 (20003 / 3))]]\<rparr>"
proof -
  have "log 2 (20003 / 3 :: real) \<noteq> 0"
    using log2_scenario_pos by (rule less_imp_neq[THEN not_sym])
  then show ?thesis
    by (simp add: cv_filter_def coefficient_of_variation_def np_std_def np_mean_def np_sum_def np_percentile_def sort_fl_def lerp_def fsub_def fge_def boolean_index_def Let_def)
qed

lemma filtered_total_set_scenario:
  "filtered_total_set (aligned_sets [scenario_a, scenario_b])
   = Inr \<lparr>nd_ncols = 3, nd_rows = [[Fin (log 2 (20003 / 3)), Fin (log 2 (20003 / 3)), Fin (log 2 (20003 / 3))]]\<rparr>"
  by (simp add: filtered_total_set_def pd_concat_scenario normalize_scenario log_transform_scenario expression_filter_scenario zero_mean_filter_scenario cv_filter_scenario)

lemma split_loop_scenario:
  "split_loop \<lparr>nd_ncols = 3, nd_rows = [[Fin (log 2 (20003 / 3)), Fin (log 2 (20003 / 3)), Fin (log 2 (20003 / 3))]]\<rparr> [0, 2, 1]
      (aligned_sets [scenario_a, scenario_b])
  = [NdArray \<lparr>nd_ncols = 2, nd_rows = [[Fin (log 2 (20003 / 3)), Fin (log 2 (20003 / 3))]]\<rparr>,
     NdArray \<lparr>nd_ncols = 1, nd_rows = [[Fin (log 2 (20003 / 3))]]\<rparr>]"
  by (simp add: split_loop_def aligned_sets_scenario slice_cols_def upt_rec)

text \<open>
  C2, as stated, fails in its last part: the outputs need not retain the rows B, C and D.
  On the scenario with features A, B, C, D and B, C, D, E the common index is B, C, D, but
  the row sums of the three aligned rows differ, the 1st and 99th percentiles lie strictly
  between the smallest and the largest of them, and the expression filter drops the rows of
  B and D: each output holds one row, that of C, with two and one columns.
\<close>

theorem scale_sets_common_index_counterexample:
  "common_genes [scenario_a, scenario_b] = Inr [''B'', ''C'', ''D'']
   \<and> scale_sets 0 (empty_heap(0 := [DataFrame scenario_a, DataFrame scenario_b]))
       = (Inr 0, empty_heap(0 :=
            [NdArray \<lparr>nd_ncols = 2, nd_rows = [[Fin (log 2 (20003 / 3)), Fin (log 2 (20003 / 3))]]\<rparr>,
             NdArray \<lparr>nd_ncols = 1, nd_rows = [[Fin (log 2 (20003 / 3))]]\<rparr>]))"
proof -
  have cs: "0 # map (\<lambda>f. length (columns f)) [scenario_a, scenario_b] = [0, 2, 1]"
    by (simp add: scenario_a_def scenario_b_def)
  have h: "(empty_heap(0 := [DataFrame scenario_a, DataFrame scenario_b])) 0 = map DataFrame [scenario_a, scenario_b]"
    by simp
  have ne: "[scenario_a, scenario_b] \<noteq> []" by simp
  have "scale_sets 0 (empty_heap(0 := [DataFrame scenario_a, DataFrame scenario_b]))
       = (Inr 0, (empty_heap(0 := [DataFrame scenario_a, DataFrame scenario_b]))(0 :=
            [NdArray \<lparr>nd_ncols = 2, nd_rows = [[Fin (log 2 (20003 / 3)), Fin (log 2 (20003 / 3))]]\<rparr>,
             NdArray \<lparr>nd_ncols = 1, nd_rows = [[Fin (log 2 (20003 / 3))]]\<rparr>]))"
    using scale_sets_valid[where h = "empty_heap(0 := [DataFrame scenario_a, DataFrame scenario_b])" and sets = 0,
            OF h ne valid_scenario]
    unfolding filtered_total_set_scenario sum.case cs split_loop_scenario .
  then show ?thesis using common_genes_scenario by simp
qed


text \<open>
  C2, amended. For one or more well-formed frames, the common feature index that
  \<open>scale_sets\<close> computes is the intersection of the frames' feature sets, sorted and without
  repetition, and the first loop replaces every frame by its rows at exactly these features
  in exactly this order, each taken unchanged from the frame, with the frame's columns; the
  combined matrix has one row per common feature in that order. Then either the call raises
  \<open>IndexError\<close> and leaves the aligned frames in the list, or it returns the list, in which
  output \<open>i\<close> has the column count of input \<open>i\<close> and holds the columns of input \<open>i\<close> of the
  filtered matrix, whose rows are the transformed rows of the common features at increasing
  positions \<open>ks\<close> of the sorted index: the outputs retain only rows of common features, in
  sorted order, but not necessarily all of them.
\<close>

theorem scale_sets_common_index:
  assumes "h sets = map DataFrame fs" "fs \<noteq> []" "list_all valid_frame fs"
  shows "\<exists>cg aligned combined.
       common_genes fs = Inr cg
     \<and> sorted cg \<and> distinct cg \<and> set cg = (\<Inter>f \<in> set fs. set (index f))
     \<and> aligned = map (\<lambda>f. DataFrame \<lparr>index = cg, columns = columns f, vals = map (row_of f) cg\<rparr>) fs
     \<and> align_loop cg [0..<length (h sets)] (h sets, [0])
         = (None, aligned, 0 # map (\<lambda>f. length (columns f)) fs)
     \<and> (\<forall>f \<in> set fs. \<forall>g \<in> set cg. \<exists>k < length (index f). index f ! k = g \<and> row_of f g = vals f ! k)
     \<and> combined = \<lparr>nd_ncols = sum_list (map (\<lambda>f. length (columns f)) fs),
                     nd_rows = map (\<lambda>g. concat (map (\<lambda>f. row_of f g) fs)) cg\<rparr>
     \<and> pd_concat aligned = Inr combined
     \<and> (scale_sets sets h = (Inl IndexError, h(sets := aligned))
        \<or> (\<exists>ks final.
               subseq ks [0..<length cg]
             \<and> filtered_total_set aligned = Inr final
             \<and> nd_rows final
                 = map (\<lambda>k. nd_rows (log_transform (library_size_normalize combined)) ! k) ks
             \<and> scale_sets sets h
                 = (Inr sets,
                    h(sets := map (\<lambda>i. NdArray
                        \<lparr>nd_ncols = length (columns (fs ! i)),
                         nd_rows = map (\<lambda>r. take (length (columns (fs ! i)))
                                              (drop (sum_list (take i (map (\<lambda>f. length (columns f)) fs))) r))
                                       (nd_rows final)\<rparr>) [0..<length fs]))))"
proof -
  define cg where "cg = sorted_list_of_set (\<Inter>f \<in> set fs. set (index f))"
  define aligned where
    "aligned = map (\<lambda>f. DataFrame \<lparr>index = cg, columns = columns f, vals = map (row_of f) cg\<rparr>) fs"
  define combined where
    "combined = \<lparr>nd_ncols = sum_list (map (\<lambda>f. length (columns f)) fs),
                  nd_rows = map (\<lambda>g. concat (map (\<lambda>f. row_of f g) fs)) cg\<rparr>"
  let ?cs = "map (\<lambda>f. length (columns f)) fs"
  let ?T = "nd_rows (log_transform (library_size_normalize combined))"
  have fin: "finite (\<Inter>f \<in> set fs. set (index f))" using assms(2) by (rule finite_common)
  have c: "common_genes fs = Inr cg"
    using common_genes_Inr[OF assms(2)] by (simp add: cg_def)
  have s: "sorted cg" "distinct cg" "set cg = (\<Inter>f \<in> set fs. set (index f))"
    using fin by (simp_all add: cg_def)
  have al: "aligned_sets fs = aligned"
    using aligned_sets_valid[OF assms(2,3)] by (simp add: cg_def aligned_def)
  have loop: "align_loop cg [0..<length (h sets)] (h sets, [0]) = (None, aligned, 0 # ?cs)"
    using aligned_sets_loop[OF assms(2,3) c, of "[0]"] by (simp add: assms(1) al)
  have rows: "\<forall>f \<in> set fs. \<forall>g \<in> set cg. \<exists>k < length (index f). index f ! k = g \<and> row_of f g = vals f ! k"
  proof (intro ballI)
    fix f g assume f: "f \<in> set fs" and g: "g \<in> set cg"
    have "valid_frame f" using f assms(3) by (simp add: list_all_iff)
    moreover have "g \<in> set (index f)" using f g s(3) by auto
    ultimately show "\<exists>k < length (index f). index f ! k = g \<and> row_of f g = vals f ! k"
      by (rule row_of_nth)
  qed
  have pc: "pd_concat aligned = Inr combined"
    unfolding aligned_def combined_def using assms(2) by (rule pd_concat_aligned)
  have lt: "length ?T = length cg"
    by (simp add: log_transform_shape library_size_normalize_shape combined_def)
  have run: "scale_sets sets h = (Inl IndexError, h(sets := aligned))
        \<or> (\<exists>ks final.
               subseq ks [0..<length cg]
             \<and> filtered_total_set aligned = Inr final
             \<and> nd_rows final = map (\<lambda>k. ?T ! k) ks
             \<and> scale_sets sets h
                 = (Inr sets,
                    h(sets := map (\<lambda>i. NdArray
                        \<lparr>nd_ncols = length (columns (fs ! i)),
                         nd_rows = map (\<lambda>r. take (length (columns (fs ! i)))
                                              (drop (sum_list (take i ?cs)) r))
                                       (nd_rows final)\<rparr>) [0..<length fs])))"
  proof (cases "rows_entering_cv fs = []")
    case True
    with filtered_total_set_cases[OF assms(2,3)]
    have "filtered_total_set (aligned_sets fs) = Inl IndexError" by simp
    then have "scale_sets sets h = (Inl IndexError, h(sets := aligned))"
      by (simp add: scale_sets_valid[where h = h and sets = sets, OF assms] al)
    then show ?thesis by blast
  next
    case False
    with filtered_total_set_cases[OF assms(2,3)]
    obtain final where final: "filtered_total_set aligned = Inr final"
        "nd_ncols final = sum_list ?cs"
      unfolding al by blast
    from filters_subseq[OF final(1) pc] have "subseq (nd_rows final) ?T" .
    from subseq_positions[OF this] lt
    obtain ks where ks: "subseq ks [0..<length cg]" "nd_rows final = map (\<lambda>k. ?T ! k) ks"
      by auto
    have len: "length aligned = length fs" by (simp add: aligned_def)
    have "scale_sets sets h = (Inr sets, h(sets := split_loop final (0 # ?cs) aligned))"
      using final(1) by (simp add: scale_sets_valid[where h = h and sets = sets, OF assms] al)
    then have "scale_sets sets h
                 = (Inr sets,
                    h(sets := map (\<lambda>i. NdArray
                        \<lparr>nd_ncols = length (columns (fs ! i)),
                         nd_rows = map (\<lambda>r. take (length (columns (fs ! i)))
                                              (drop (sum_list (take i ?cs)) r))
                                       (nd_rows final)\<rparr>) [0..<length fs]))"
      by (simp only: split_valid[OF len final(2)])
    with ks final(1) show ?thesis by blast
  qed
  have "common_genes fs = Inr cg
     \<and> sorted cg \<and> distinct cg \<and> set cg = (\<Inter>f \<in> set fs. set (index f))
     \<and> aligned = map (\<lambda>f. DataFrame \<lparr>index = cg, columns = columns f, vals = map (row_of f) cg\<rparr>) fs
     \<and> align_loop cg [0..<length (h sets)] (h sets, [0])
         = (None, aligned, 0 # map (\<lambda>f. length (columns f)) fs)
     \<and> (\<forall>f \<in> set fs. \<forall>g \<in> set cg. \<exists>k < length (index f). index f ! k = g \<and> row_of f g = vals f ! k)
     \<and> combined = \<lparr>nd_ncols = sum_list (map (\<lambda>f. length (columns f)) fs),
                     nd_rows = map (\<lambda>g. concat (map (\<lambda>f. row_of f g) fs)) cg\<rparr>
     \<and> pd_concat aligned = Inr combined
     \<and> (scale_sets sets h = (Inl IndexError, h(sets := aligned))
        \<or> (\<exists>ks final.
               subseq ks [0..<length cg]
             \<and> filtered_total_set aligned = Inr final
             \<and> nd_rows final
                 = map (\<lambda>k. nd_rows (log_transform (library_size_normalize combined)) ! k) ks
             \<and> scale_sets sets h
                 = (Inr sets,
                    h(sets := map (\<lambda>i. NdArray
                        \<lparr>nd_ncols = length (columns (fs ! i)),
                         nd_rows = map (\<lambda>r. take (length (columns (fs ! i)))
                                              (drop (sum_list (take i (map (\<lambda>f. length (columns f)) fs))) r))
                                       (nd_rows final)\<rparr>) [0..<length fs]))))"
    by (intro conjI c s loop rows pc run aligned_def combined_def)
  then show ?thesis by (intro exI)
qed


theorem scale_sets_common_index_witness:
  "(empty_heap(0 := [DataFrame scenario_a, DataFrame scenario_b])) 0 = map DataFrame [scenario_a, scenario_b]
   \<and> [scenario_a, scenario_b] \<noteq> []
   \<and> list_all valid_frame [scenario_a, scenario_b]
   \<and> set (index scenario_a) = {''A'', ''B'', ''C'', ''D''}
   \<and> set (index scenario_b) = {''B'', ''C'', ''D'', ''E''}
   \<and> (\<exists>aligned combined.
         aligned = map (\<lambda>f. DataFrame \<lparr>index = [''B'', ''C'', ''D''], columns = columns f,
                                         vals = map (row_of f) [''B'', ''C'', ''D'']\<rparr>)
                       [scenario_a, scenario_b]
       \<and> align_loop [''B'', ''C'', ''D'']
             [0..<length ((empty_heap(0 := [DataFrame scenario_a, DataFrame scenario_b])) 0)]
             ((empty_heap(0 := [DataFrame scenario_a, DataFrame scenario_b])) 0, [0])
           = (None, aligned, 0 # map (\<lambda>f. length (columns f)) [scenario_a, scenario_b])
       \<and> combined = \<lparr>nd_ncols = sum_list (map (\<lambda>f. length (columns f)) [scenario_a, scenario_b]),
                       nd_rows = map (\<lambda>g. concat (map (\<lambda>f. row_of f g) [scenario_a, scenario_b]))
                                     [''B'', ''C'', ''D'']\<rparr>
       \<and> pd_concat aligned = Inr combined
       \<and> (scale_sets 0 (empty_heap(0 := [DataFrame scenario_a, DataFrame scenario_b]))
            = (Inl IndexError, (empty_heap(0 := [DataFrame scenario_a, DataFrame scenario_b]))(0 := aligned))
          \<or> (\<exists>ks final.
                 subseq ks [0..<length [''B'', ''C'', ''D'']]
               \<and> filtered_total_set aligned = Inr final
               \<and> nd_rows final
                   = map (\<lambda>k. nd_rows (log_transform (library_size_normalize combined)) ! k) ks
               \<and> scale_sets 0 (empty_heap(0 := [DataFrame scenario_a, DataFrame scenario_b]))
                   = (Inr 0,
                      (empty_heap(0 := [DataFrame scenario_a, DataFrame scenario_b]))
                        (0 := map (\<lambda>i. NdArray
                          \<lparr>nd_ncols = length (columns ([scenario_a, scenario_b] ! i)),
                           nd_rows = map (\<lambda>r. take (length (columns ([scenario_a, scenario_b] ! i)))
                                                (drop (sum_list (take i (map (\<lambda>f. length (columns f))
                                                                             [scenario_a, scenario_b]))) r))
                                         (nd_rows final)\<rparr>) [0..<length [scenario_a, scenario_b]])))))"
proof -
  let ?h = "empty_heap(0 := [DataFrame scenario_a, DataFrame scenario_b])"
  have h: "?h 0 = map DataFrame [scenario_a, scenario_b]" by simp
  have ne: "[scenario_a, scenario_b] \<noteq> []" by simp
  have ia: "set (index scenario_a) = {''A'', ''B'', ''C'', ''D''}"
    by (auto simp: scenario_a_def)
  have ib: "set (index scenario_b) = {''B'', ''C'', ''D'', ''E''}"
    by (auto simp: scenario_b_def)
  from scale_sets_common_index[where h = ?h and sets = 0, OF h ne valid_scenario]
  obtain cg aligned combined where cg: "common_genes [scenario_a, scenario_b] = Inr cg"
    and rest: "aligned = map (\<lambda>f. DataFrame \<lparr>index = cg, columns = columns f, vals = map (row_of f) cg\<rparr>)
                       [scenario_a, scenario_b]
       \<and> align_loop cg [0..<length (?h 0)] (?h 0, [0])
           = (None, aligned, 0 # map (\<lambda>f. length (columns f)) [scenario_a, scenario_b])
       \<and> combined = \<lparr>nd_ncols = sum_list (map (\<lambda>f. length (columns f)) [scenario_a, scenario_b]),
                       nd_rows = map (\<lambda>g. concat (map (\<lambda>f. row_of f g) [scenario_a, scenario_b])) cg\<rparr>
       \<and> pd_concat aligned = Inr combined
       \<and> (scale_sets 0 ?h = (Inl IndexError, ?h(0 := aligned))
          \<or> (\<exists>ks final.
                 subseq ks [0..<length cg]
               \<and> filtered_total_set aligned = Inr final
               \<and> nd_rows final
                   = map (\<lambda>k. nd_rows (log_transform (library_size_normalize combined)) ! k) ks
               \<and> scale_sets 0 ?h
                   = (Inr 0,
                      ?h(0 := map (\<lambda>i. NdArray
                          \<lparr>nd_ncols = length (columns ([scenario_a, scenario_b] ! i)),
                           nd_rows = map (\<lambda>r. take (length (columns ([scenario_a, scenario_b] ! i)))
                                                (drop (sum_list (take i (map (\<lambda>f. length (columns f))
                                                                             [scenario_a, scenario_b]))) r))
                                         (nd_rows final)\<rparr>) [0..<length [scenario_a, scenario_b]]))))"
    by blast
  from cg[unfolded common_genes_scenario] have c: "cg = [''B'', ''C'', ''D'']" by simp
  from rest[unfolded c] h ne valid_scenario ia ib show ?thesis by blast
qed

subsection \<open>A column that sums to zero\<close>

lemma fadd_not_Fin: "\<forall>b. z \<noteq> Fin b \<Longrightarrow> \<forall>b. fadd z y \<noteq> Fin b"
  by (cases z; cases y) auto

lemma foldl_fadd_not_Fin: "\<forall>b. z \<noteq> Fin b \<Longrightarrow> \<forall>b. foldl fadd z xs \<noteq> Fin b"
proof (induction xs arbitrary: z)
  case Nil
  then show ?case by simp
next
  case (Cons x xs)
  from fadd_not_Fin[OF Cons.prems] have "\<forall>b. fadd z x \<noteq> Fin b" .
  from Cons.IH[OF this] show ?case by simp
qed

lemma foldl_fadd_Fin:
  "foldl fadd (Fin a) xs = Fin s \<Longrightarrow> \<exists>ys. xs = map Fin ys \<and> s = a + sum_list ys"
proof (induction xs arbitrary: a)
  case Nil
  then show ?case by simp
next
  case (Cons x xs)
  show ?case
  proof (cases x)
    case (Fin b)
    with Cons.prems have "foldl fadd (Fin (a + b)) xs = Fin s" by simp
    from Cons.IH[OF this] obtain ys where "xs = map Fin ys" "s = a + b + sum_list ys" by blast
    then have "x # xs = map Fin (b # ys) \<and> s = a + sum_list (b # ys)"
      using Fin by simp
    then show ?thesis by (rule exI[of _ "b # ys"])
  next
    case PInf
    then have "\<forall>b. fadd (Fin a) x \<noteq> Fin b" by simp
    from foldl_fadd_not_Fin[OF this, of xs] Cons.prems show ?thesis by simp
  next
    case NInf
    then have "\<forall>b. fadd (Fin a) x \<noteq> Fin b" by simp
    from foldl_fadd_not_Fin[OF this, of xs] Cons.prems show ?thesis by simp
  next
    case NaN
    then have "\<forall>b. fadd (Fin a) x \<noteq> Fin b" by simp
    from foldl_fadd_not_Fin[OF this, of xs] Cons.prems show ?thesis by simp
  qed
qed

lemma np_sum_Fin: "np_sum xs = Fin s \<Longrightarrow> \<exists>ys. xs = map Fin ys \<and> s = sum_list ys"
  using foldl_fadd_Fin[of 0 xs s] by (simp add: np_sum_def)

lemma foldl_fadd_NaN: "foldl fadd NaN xs = NaN"
  by (induction xs) auto

lemma fadd_NaN_right: "fadd z NaN = NaN"
  by (cases z) auto

lemma foldl_fadd_has_NaN: "NaN \<in> set xs \<Longrightarrow> foldl fadd z xs = NaN"
proof (induction xs arbitrary: z)
  case Nil
  then show ?case by simp
next
  case (Cons x xs)
  show ?case
  proof (cases "x = NaN")
    case True
    then show ?thesis by (simp add: fadd_NaN_right foldl_fadd_NaN)
  next
    case False
    with Cons.prems have "NaN \<in> set xs" by simp
    from Cons.IH[OF this] show ?thesis by simp
  qed
qed

lemma np_sum_has_NaN: "NaN \<in> set xs \<Longrightarrow> np_sum xs = NaN"
  by (simp add: np_sum_def foldl_fadd_has_NaN)

lemma sum_zero_all_zero_or_negative:
  assumes "sum_list (ys::real list) = 0"
  shows "(\<forall>y \<in> set ys. y = 0) \<or> (\<exists>y \<in> set ys. y < 0)"
proof (rule ccontr)
  assume "\<not> ?thesis"
  then have nn: "\<forall>y \<in> set ys. 0 \<le> y" and nz: "\<exists>y \<in> set ys. y \<noteq> 0"
    by (auto simp: not_less)
  from nn assms have "\<forall>y \<in> set ys. y = 0"
    by (simp add: sum_list_nonneg_eq_0_iff)
  with nz show False by blast
qed

text \<open>What lines 77 and 78 make of an entry whose column sums to zero.\<close>

lemma zero_sum_entry_NaN:
  assumes "y \<le> 0"
  shows "flog2 (fadd (fmul (fdiv (Fin y) (Fin 0)) (Fin 20000)) (Fin 1)) = NaN"
  using assms by (cases "y = 0") (simp_all add: inf_of_sign_def)

lemma np_percentile_NaN:
  assumes "NaN \<in> set xs" "0 \<le> q" "q \<le> 100"
  shows "np_percentile xs q = Inr NaN"
  using assms by (auto simp: np_percentile_def)

lemma fle_NaN_right: "fle x NaN = False"
  by (cases x) auto

lemma expression_filter_NaN:
  assumes "r \<in> set (nd_rows a)" "NaN \<in> set r"
  shows "expression_filter a = Inr \<lparr>nd_ncols = nd_ncols a, nd_rows = []\<rparr>"
proof -
  have ne: "nd_rows a \<noteq> []" using assms(1) by auto
  have "np_sum r = NaN" using assms(2) by (rule np_sum_has_NaN)
  then have "NaN \<in> set (map np_sum (nd_rows a))" using assms(1) by force
  then have "np_percentile (map np_sum (nd_rows a)) 1 = Inr NaN"
    by (rule np_percentile_NaN) simp_all
  then show ?thesis
    by (simp add: expression_filter_nonempty[OF ne] fge_def)
qed

lemma zero_column_transformed:
  assumes "rectangular t" "j < nd_ncols t" "col_sums t ! j = Fin 0" "nd_rows t \<noteq> []"
  shows "\<exists>r \<in> set (nd_rows (log_transform (library_size_normalize t))). NaN \<in> set r"
proof -
  let ?g = "\<lambda>x c. fmul (fdiv x c) (Fin 20000)"
  let ?col = "map (\<lambda>r. r ! j) (nd_rows t)"
  have "np_sum ?col = Fin 0"
    using assms(2,3) by (simp add: col_sums_def)
  then obtain ys where ys: "?col = map Fin ys" "sum_list ys = 0"
    using np_sum_Fin by fastforce
  have lys: "length ys = length (nd_rows t)"
    using ys(1) by (metis length_map)
  have "\<exists>k < length ys. ys ! k \<le> 0"
  proof -
    from sum_zero_all_zero_or_negative[OF ys(2)]
    show ?thesis
    proof
      assume z: "\<forall>y \<in> set ys. y = 0"
      have l: "0 < length ys" using lys assms(4) by simp
      then have "ys ! 0 \<in> set ys" by (rule nth_mem)
      with z have "ys ! 0 = 0" by blast
      then have "ys ! 0 \<le> 0" by simp
      with l show ?thesis by blast
    next
      assume "\<exists>y \<in> set ys. y < 0"
      then obtain i where "i < length ys" "ys ! i < 0"
        by (auto simp: in_set_conv_nth)
      then have "i < length ys \<and> ys ! i \<le> 0" by simp
      then show ?thesis by blast
    qed
  qed
  then obtain k where k: "k < length (nd_rows t)" "ys ! k \<le> 0" using lys by auto
  let ?r = "nd_rows t ! k"
  have rk: "?r ! j = Fin (ys ! k)"
  proof -
    have "?col ! k = map Fin ys ! k" using ys(1) by simp
    then show ?thesis using k(1) lys by simp
  qed
  have lr: "length ?r = nd_ncols t"
    using assms(1) k(1) by (simp add: rectangular_def list_all_length)
  have ls: "length (col_sums t) = nd_ncols t" by (simp add: col_sums_def)
  let ?r' = "map (\<lambda>x. flog2 (fadd x (Fin 1))) (map2 ?g ?r (col_sums t))"
  have "?r' ! j = flog2 (fadd (fmul (fdiv (Fin (ys ! k)) (Fin 0)) (Fin 20000)) (Fin 1))"
    using lr ls assms(2,3) rk by simp
  also have "\<dots> = NaN" using k(2) by (rule zero_sum_entry_NaN)
  finally have "?r' ! j = NaN" .
  moreover have "j < length ?r'" using lr ls assms(2) by simp
  ultimately have "NaN \<in> set ?r'" by (metis nth_mem)
  moreover have "?r' \<in> set (nd_rows (log_transform (library_size_normalize t)))"
    using k(1) by (auto simp: log_transform_def library_size_normalize_def Let_def in_set_conv_nth
        intro!: exI[of _ k])
  ultimately show ?thesis by blast
qed

lemma filtered_total_set_zero_column:
  assumes "pd_concat objs = Inr t" "rectangular t" "j < nd_ncols t" "col_sums t ! j = Fin 0"
  shows "filtered_total_set objs = Inl IndexError"
proof (cases "nd_rows t = []")
  case True
  then have "nd_rows (log_transform (library_size_normalize t)) = []"
    using log_transform_shape(2)[of "library_size_normalize t"]
      library_size_normalize_shape(2)[of t] by simp
  then have "expression_filter (log_transform (library_size_normalize t)) = Inl IndexError"
    by (rule expression_filter_empty)
  then show ?thesis by (simp add: filtered_total_set_def assms(1))
next
  case False
  let ?l = "log_transform (library_size_normalize t)"
  from zero_column_transformed[OF assms(2-4) False]
  obtain r where "r \<in> set (nd_rows ?l)" "NaN \<in> set r" by blast
  then have "expression_filter ?l = Inr \<lparr>nd_ncols = nd_ncols ?l, nd_rows = []\<rparr>"
    by (rule expression_filter_NaN)
  moreover have "cv_filter (zero_mean_filter \<lparr>nd_ncols = nd_ncols ?l, nd_rows = []\<rparr>) = Inl IndexError"
    by (rule cv_filter_empty) (simp add: zero_mean_filter_eq)
  ultimately show ?thesis by (simp add: filtered_total_set_def assms(1))
qed

lemma common_genes_blank: "common_genes [blank_a, blank_b] = Inr [''A'', ''B'']"
  by code_simp

lemma valid_blank: "list_all valid_frame [blank_a, blank_b]"
  by (simp add: valid_frame_def blank_a_def blank_b_def)

lemma aligned_sets_blank: "aligned_sets [blank_a, blank_b] =
  [DataFrame \<lparr>index = [''A'', ''B''], columns = [''c1'', ''c2''], vals = [[Fin 3, Fin 0], [Fin 1, Fin 0]]\<rparr>,
   DataFrame \<lparr>index = [''A'', ''B''], columns = [''d1''], vals = [[Fin 6], [Fin 2]]\<rparr>]"
  by (simp add: aligned_sets_def common_genes_blank) (simp add: blank_a_def blank_b_def loc_def)

lemma pd_concat_blank: "pd_concat (aligned_sets [blank_a, blank_b]) =
   Inr \<lparr>nd_ncols = 3, nd_rows = [[Fin 3, Fin 0, Fin 6], [Fin 1, Fin 0, Fin 2]]\<rparr>"
  by (simp add: aligned_sets_blank pd_concat_def upt_rec)

lemma col_sums_blank:
  "col_sums \<lparr>nd_ncols = 3, nd_rows = [[Fin 3, Fin 0, Fin 6], [Fin 1, Fin 0, Fin 2]]\<rparr> = [Fin 4, Fin 0, Fin 8]"
  by (simp add: col_sums_def np_sum_def upt_rec)

lemma normalize_blank:
  "library_size_normalize \<lparr>nd_ncols = 3, nd_rows = [[Fin 3, Fin 0, Fin 6], [Fin 1, Fin 0, Fin 2]]\<rparr>
   = \<lparr>nd_ncols = 3, nd_rows = [[Fin 15000, NaN, Fin 15000], [Fin 5000, NaN, Fin 5000]]\<rparr>"
  by (simp add: library_size_normalize_def col_sums_blank inf_of_sign_def)

lemma log_transform_blank:
  "log_transform \<lparr>nd_ncols = 3, nd_rows = [[Fin 15000, NaN, Fin 15000], [Fin 5000, NaN, Fin 5000]]\<rparr>
   = \<lparr>nd_ncols = 3, nd_rows = [[Fin (log 2 15001), NaN, Fin (log 2 15001)],
                                [Fin (log 2 5001), NaN, Fin (log 2 5001)]]\<rparr>"
  by (simp add: log_transform_def)

lemma expression_filter_blank:
  "expression_filter \<lparr>nd_ncols = 3, nd_rows = [[Fin (log 2 15001), NaN, Fin (log 2 15001)],
                                [Fin (log 2 5001), NaN, Fin (log 2 5001)]]\<rparr>
   = Inr \<lparr>nd_ncols = 3, nd_rows = []\<rparr>"
  by (simp add: expression_filter_def np_sum_def np_percentile_def fge_def boolean_index_def)

lemma zero_mean_filter_no_row:
  "zero_mean_filter \<lparr>nd_ncols = n, nd_rows = []\<rparr> = \<lparr>nd_ncols = n, nd_rows = []\<rparr>"
  by (simp add: zero_mean_filter_def boolean_index_def)

lemma filtered_total_set_blank: "filtered_total_set (aligned_sets [blank_a, blank_b]) = Inl IndexError"
  by (simp add: filtered_total_set_def pd_concat_blank normalize_blank log_transform_blank
      expression_filter_blank zero_mean_filter_no_row cv_filter_empty)

text \<open>
  C6, as stated, fails: the code has no check of the column sums. On the pair \<open>blank_a\<close>,
  \<open>blank_b\<close> the second cell has no expression, its column of the combined matrix sums to
  zero, and the call does not end with \<open>ZeroColumnSum\<close> but with the \<open>IndexError\<close> of
  \<open>np.percentile\<close>.
\<close>

theorem scale_sets_zero_column_sum_counterexample:
  "pd_concat (aligned_sets [blank_a, blank_b])
     = Inr \<lparr>nd_ncols = 3, nd_rows = [[Fin 3, Fin 0, Fin 6], [Fin 1, Fin 0, Fin 2]]\<rparr>
   \<and> col_sums \<lparr>nd_ncols = 3, nd_rows = [[Fin 3, Fin 0, Fin 6], [Fin 1, Fin 0, Fin 2]]\<rparr>
       = [Fin 4, Fin 0, Fin 8]
   \<and> fst (scale_sets 0 (empty_heap(0 := [DataFrame blank_a, DataFrame blank_b]))) = Inl IndexError
   \<and> fst (scale_sets 0 (empty_heap(0 := [DataFrame blank_a, DataFrame blank_b]))) \<noteq> Inl ZeroColumnSum"
proof -
  have "scale_sets 0 (empty_heap(0 := [DataFrame blank_a, DataFrame blank_b]))
       = (Inl IndexError, (empty_heap(0 := [DataFrame blank_a, DataFrame blank_b]))(0 := aligned_sets [blank_a, blank_b]))"
    using valid_blank filtered_total_set_blank
    by (subst scale_sets_valid[where fs = "[blank_a, blank_b]"]) simp_all
  then show ?thesis using pd_concat_blank col_sums_blank by simp
qed

text \<open>
  C6, amended. When a column of the aligned combined matrix sums to zero, \<open>scale_sets\<close>
  does not detect it. The division by the zero sum gives NaN or an infinity; when the
  matrix has a row, some row of the log-transformed matrix holds a NaN, both percentiles of
  the row sums are NaN and no row passes the expression filter. The call then fails with
  the \<open>IndexError\<close> that \<open>np.percentile\<close> raises on the empty vector of coefficients of
  variation, with the caller's list holding the aligned frames: no NaN or infinity reaches
  an output, because no output is produced.
\<close>

theorem scale_sets_zero_column_sum:
  assumes "h sets = map DataFrame fs" "fs \<noteq> []" "list_all valid_frame fs"
    and "pd_concat (aligned_sets fs) = Inr t" "j < nd_ncols t" "col_sums t ! j = Fin 0"
  shows "scale_sets sets h = (Inl IndexError, h(sets := aligned_sets fs))
     \<and> (nd_rows t \<noteq> [] \<longrightarrow>
           (\<exists>r \<in> set (nd_rows (log_transform (library_size_normalize t))). NaN \<in> set r)
         \<and> expression_filter (log_transform (library_size_normalize t))
             = Inr \<lparr>nd_ncols = nd_ncols t, nd_rows = []\<rparr>)"
proof -
  from combined_matrix[OF assms(2,3)] assms(4) have rect: "rectangular t" by auto
  from filtered_total_set_zero_column[OF assms(4) rect assms(5,6)]
  have run: "scale_sets sets h = (Inl IndexError, h(sets := aligned_sets fs))"
    by (simp add: scale_sets_valid[where h = h and sets = sets, OF assms(1-3)])
  have nan: "(\<exists>r \<in> set (nd_rows (log_transform (library_size_normalize t))). NaN \<in> set r)
         \<and> expression_filter (log_transform (library_size_normalize t))
             = Inr \<lparr>nd_ncols = nd_ncols t, nd_rows = []\<rparr>" if "nd_rows t \<noteq> []"
  proof -
    from zero_column_transformed[OF rect assms(5,6) that]
    obtain r where r: "r \<in> set (nd_rows (log_transform (library_size_normalize t)))" "NaN \<in> set r"
      by blast
    from expression_filter_NaN[OF r] r show ?thesis
      by (auto simp: log_transform_shape library_size_normalize_shape)
  qed
  from run nan show ?thesis by blast
qed

theorem scale_sets_zero_column_sum_witness:
  "(empty_heap(0 := [DataFrame blank_a, DataFrame blank_b])) 0 = map DataFrame [blank_a, blank_b]
   \<and> [blank_a, blank_b] \<noteq> []
   \<and> list_all valid_frame [blank_a, blank_b]
   \<and> pd_concat (aligned_sets [blank_a, blank_b])
       = Inr \<lparr>nd_ncols = 3, nd_rows = [[Fin 3, Fin 0, Fin 6], [Fin 1, Fin 0, Fin 2]]\<rparr>
   \<and> 1 < nd_ncols \<lparr>nd_ncols = 3, nd_rows = [[Fin 3, Fin 0, Fin 6], [Fin 1, Fin 0, Fin 2]]\<rparr>
   \<and> col_sums \<lparr>nd_ncols = 3, nd_rows = [[Fin 3, Fin 0, Fin 6], [Fin 1, Fin 0, Fin 2]]\<rparr> ! 1 = Fin 0
   \<and> scale_sets 0 (empty_heap(0 := [DataFrame blank_a, DataFrame blank_b]))
       = (Inl IndexError,
          empty_heap(0 := [DataFrame \<lparr>index = [''A'', ''B''], columns = [''c1'', ''c2''],
                                      vals = [[Fin 3, Fin 0], [Fin 1, Fin 0]]\<rparr>,
                           DataFrame \<lparr>index = [''A'', ''B''], columns = [''d1''],
                                      vals = [[Fin 6], [Fin 2]]\<rparr>]))"
proof -
  let ?h = "empty_heap(0 := [DataFrame blank_a, DataFrame blank_b])"
  let ?t = "\<lparr>nd_ncols = 3, nd_rows = [[Fin 3, Fin 0, Fin 6], [Fin 1, Fin 0, Fin 2]]\<rparr>"
  have h: "?h 0 = map DataFrame [blank_a, blank_b]" by simp
  have ne: "[blank_a, blank_b] \<noteq> []" by simp
  have j: "1 < nd_ncols ?t" by simp
  have z: "col_sums ?t ! 1 = Fin 0" by (simp add: col_sums_blank)
  from scale_sets_zero_column_sum[where h = ?h and sets = 0, OF h ne valid_blank pd_concat_blank j z]
  have "scale_sets 0 ?h = (Inl IndexError, ?h(0 := aligned_sets [blank_a, blank_b]))" by blast
  then have "scale_sets 0 ?h
       = (Inl IndexError,
          empty_heap(0 := [DataFrame \<lparr>index = [''A'', ''B''], columns = [''c1'', ''c2''],
                                      vals = [[Fin 3, Fin 0], [Fin 1, Fin 0]]\<rparr>,
                           DataFrame \<lparr>index = [''A'', ''B''], columns = [''d1''],
                                      vals = [[Fin 6], [Fin 2]]\<rparr>]))"
    by (simp add: aligned_sets_blank)
  with h ne valid_blank pd_concat_blank j z show ?thesis by blast
qed

subsection \<open>The expression filter\<close>









subsection \<open>The zero-mean exclusion and the coefficient of variation\<close>









subsection \<open>The library-size normalisation\<close>






























subsection \<open>The effect on the caller's list\<close>

text \<open>
  C10. \<open>scale_sets\<close> works on the list object it is given and on nothing else in the heap.
  Its first loop overwrites every slot with the row-aligned frame. When the call returns,
  the reference returned is the argument, every slot holds a column slice of the filtered
  combined matrix, and no data frame is left in the list. When the call fails in the
  filters, the list is left holding the aligned frames.
\<close>

theorem scale_sets_in_place:
  assumes "h sets = map DataFrame fs" "fs \<noteq> []" "list_all valid_frame fs"
  shows "(\<forall>a. a \<noteq> sets \<longrightarrow> snd (scale_sets sets h) a = h a)
     \<and> (\<exists>cg. common_genes fs = Inr cg
           \<and> align_loop cg [0..<length (h sets)] (h sets, [0])
               = (None, aligned_sets fs, 0 # map (\<lambda>f. length (columns f)) fs))
     \<and> (rows_entering_cv fs = [] \<longrightarrow>
            fst (scale_sets sets h) = Inl IndexError
          \<and> snd (scale_sets sets h) sets = aligned_sets fs)
     \<and> (rows_entering_cv fs \<noteq> [] \<longrightarrow>
            fst (scale_sets sets h) = Inr sets
          \<and> (\<exists>final. filtered_total_set (aligned_sets fs) = Inr final
                \<and> snd (scale_sets sets h) sets
                    = map (\<lambda>i. NdArray (slice_cols final
                                      (sum_list (take i (map (\<lambda>f. length (columns f)) fs)))
                                      (sum_list (take (i + 1) (map (\<lambda>f. length (columns f)) fs)))))
                          [0..<length fs])
          \<and> (\<forall>f. DataFrame f \<notin> set (snd (scale_sets sets h) sets)))"
proof (intro conjI allI impI)
  fix a assume "a \<noteq> sets"
  then show "snd (scale_sets sets h) a = h a" by (rule scale_sets_frame)
next
  obtain cg where cg: "common_genes fs = Inr cg"
    using common_genes_Inr[OF assms(2)] by blast
  from aligned_sets_loop[OF assms(2,3) cg, of "[0]"]
  show "\<exists>cg. common_genes fs = Inr cg
           \<and> align_loop cg [0..<length (h sets)] (h sets, [0])
               = (None, aligned_sets fs, 0 # map (\<lambda>f. length (columns f)) fs)"
    using cg by (intro exI[of _ cg]) (simp add: assms(1))
next
  assume e: "rows_entering_cv fs = []"
  with filtered_total_set_cases[OF assms(2,3)]
  have f: "filtered_total_set (aligned_sets fs) = Inl IndexError" by simp
  show "fst (scale_sets sets h) = Inl IndexError"
    by (simp add: scale_sets_valid[where h = h and sets = sets, OF assms] f)
  show "snd (scale_sets sets h) sets = aligned_sets fs"
    by (simp add: scale_sets_valid[where h = h and sets = sets, OF assms] f)
next
  assume ne: "rows_entering_cv fs \<noteq> []"
  with filtered_total_set_cases[OF assms(2,3)]
  obtain final where f: "filtered_total_set (aligned_sets fs) = Inr final" by blast
  let ?cs = "map (\<lambda>f. length (columns f)) fs"
  have run: "scale_sets sets h = (Inr sets, h(sets := split_loop final (0 # ?cs) (aligned_sets fs)))"
    by (simp add: scale_sets_valid[where h = h and sets = sets, OF assms] f)
  have sp: "split_loop final (0 # ?cs) (aligned_sets fs)
      = map (\<lambda>i. NdArray (slice_cols final (sum_list (take i ?cs)) (sum_list (take (i + 1) ?cs))))
            [0..<length fs]"
    by (simp add: split_loop_map length_aligned_sets[OF assms(2)])
  show "fst (scale_sets sets h) = Inr sets" by (simp add: run)
  show "\<exists>final. filtered_total_set (aligned_sets fs) = Inr final
                \<and> snd (scale_sets sets h) sets
                    = map (\<lambda>i. NdArray (slice_cols final (sum_list (take i ?cs)) (sum_list (take (i + 1) ?cs))))
                          [0..<length fs]"
    using f run sp by (intro exI[of _ final]) simp
  show "DataFrame f \<notin> set (snd (scale_sets sets h) sets)" for f
    by (auto simp: run sp)
qed

theorem scale_sets_in_place_witness:
  "(empty_heap(5 := [DataFrame overlap_a, DataFrame overlap_b])) 5 = map DataFrame [overlap_a, overlap_b]
   \<and> [overlap_a, overlap_b] \<noteq> []
   \<and> list_all valid_frame [overlap_a, overlap_b]
   \<and> rows_entering_cv [overlap_a, overlap_b] \<noteq> []
   \<and> snd (scale_sets 5 (empty_heap(5 := [DataFrame overlap_a, DataFrame overlap_b]))) 6 = []
   \<and> fst (scale_sets 5 (empty_heap(5 := [DataFrame overlap_a, DataFrame overlap_b]))) = Inr 5
   \<and> snd (scale_sets 5 (empty_heap(5 := [DataFrame overlap_a, DataFrame overlap_b]))) 5
       = [NdArray \<lparr>nd_ncols = 2, nd_rows = [[Fin (log 2 20001), Fin (log 2 20001)]]\<rparr>,
          NdArray \<lparr>nd_ncols = 1, nd_rows = [[Fin (log 2 20001)]]\<rparr>]"
proof -
  let ?h = "empty_heap(5 := [DataFrame overlap_a, DataFrame overlap_b])"
  have h: "?h 5 = map DataFrame [overlap_a, overlap_b]" by simp
  have ne: "[overlap_a, overlap_b] \<noteq> []" by simp
  have v: "list_all valid_frame [overlap_a, overlap_b]"
    by (simp add: valid_frame_def overlap_a_def overlap_b_def)
  have r: "rows_entering_cv [overlap_a, overlap_b] \<noteq> []"
    by (simp add: rows_entering_cv_overlap)
  note t = scale_sets_in_place[where h = ?h and sets = 5, OF h ne v]
  from t have 1: "snd (scale_sets 5 ?h) 6 = []" by (simp add: empty_heap_def)
  from t r have 2: "fst (scale_sets 5 ?h) = Inr 5" by blast
  from t r obtain final where f: "filtered_total_set (aligned_sets [overlap_a, overlap_b]) = Inr final"
    and s: "snd (scale_sets 5 ?h) 5 = map (\<lambda>i. NdArray (slice_cols final
                (sum_list (take i (map (\<lambda>f. length (columns f)) [overlap_a, overlap_b])))
                (sum_list (take (i + 1) (map (\<lambda>f. length (columns f)) [overlap_a, overlap_b])))))
              [0..<length [overlap_a, overlap_b]]"
    by blast
  from f have final: "final = \<lparr>nd_ncols = 3, nd_rows = [[Fin (log 2 20001), Fin (log 2 20001), Fin (log 2 20001)]]\<rparr>"
    by (simp add: filtered_total_set_overlap)
  have 3: "snd (scale_sets 5 ?h) 5
       = [NdArray \<lparr>nd_ncols = 2, nd_rows = [[Fin (log 2 20001), Fin (log 2 20001)]]\<rparr>,
          NdArray \<lparr>nd_ncols = 1, nd_rows = [[Fin (log 2 20001)]]\<rparr>]"
    unfolding s final by (simp add: slice_cols_def overlap_a_def overlap_b_def upt_rec)
  from h ne v r 1 2 3 show ?thesis by blast
qed

end
